theory Spec2Isabelle
  imports Complex_Main "HOL-Library.AList" "HOL-Library.Log_Nat"
begin

section \<open>Exceptions\<close>

text \<open>
  Every Python exception the modelled functions can raise is a constructor; a function
  that may raise returns \<open>error + 'a\<close>, with \<open>Inl\<close> for the exception.
\<close>

datatype error =
    AssertionError
  | AttributeError string
  | IndexError
  | KeyError
  | NotImplementedError
  | TypeError
  | ValueError string
  | ZeroDivisionError

section \<open>semantic\_caching.py: CacheWithEviction\<close>

text \<open>
  The instance attributes are exactly the six that \<open>__init__\<close> assigns. The
  \<open>OrderedDict\<close> \<open>cache\<close> and the dict \<open>access_times\<close> are association lists in
  insertion order with distinct keys: \<open>AList.update\<close> overwrites in place or appends,
  as assignment to a Python dict does. Timestamps of \<open>time.time()\<close> are rationals
  handed to the operation that reads the clock.
\<close>

record ('k, 'v) CacheWithEviction =
  cache :: "('k \<times> 'v) list"
  access_times :: "('k \<times> rat) list"
  cache_size :: int
  strategy :: string
  random_seed :: int
  initialized :: bool

definition init_cache :: "int \<Rightarrow> string \<Rightarrow> int \<Rightarrow> ('k, 'v) CacheWithEviction" where
  "init_cache capacity strat seed =
     \<lparr>cache = [], access_times = [], cache_size = capacity, strategy = strat,
      random_seed = seed, initialized = False\<rparr>"

text \<open>
  \<open>min(d, key=d.get)\<close> and \<open>max(d, key=d.get)\<close> over a non-empty dict: the first
  key, in iteration order, whose value is minimal (maximal).
\<close>

fun min_by :: "('k \<times> rat) \<Rightarrow> ('k \<times> rat) list \<Rightarrow> 'k \<times> rat" where
  "min_by best [] = best"
| "min_by best (x # xs) = min_by (if snd x < snd best then x else best) xs"

fun max_by :: "('k \<times> rat) \<Rightarrow> ('k \<times> rat) list \<Rightarrow> 'k \<times> rat" where
  "max_by best [] = best"
| "max_by best (x # xs) = max_by (if snd x > snd best then x else best) xs"

definition has_key :: "'k \<Rightarrow> ('k \<times> 'b) list \<Rightarrow> bool" where
  "has_key k d = (map_of d k \<noteq> None)"

text \<open>
  \<open>_evict\<close>. The argument \<open>rnd\<close> stands for the generator: after
  \<open>random.seed(s)\<close>, \<open>random.choice\<close> on a list of \<open>n\<close> elements picks the index
  \<open>rnd s n mod n\<close>. A strategy string other than the five known ones evicts nothing.
\<close>

definition evict :: "(int \<Rightarrow> nat \<Rightarrow> nat) \<Rightarrow> ('k, 'v) CacheWithEviction \<Rightarrow> error + ('k, 'v) CacheWithEviction" where
  "evict rnd c =
     (if int (length (cache c)) > cache_size c then
        if strategy c = ''FIFO'' then
          (case cache c of [] \<Rightarrow> Inl KeyError | _ # rest \<Rightarrow> Inr (c\<lparr>cache := rest\<rparr>))
        else if strategy c = ''LIFO'' then
          (if cache c = [] then Inl KeyError else Inr (c\<lparr>cache := butlast (cache c)\<rparr>))
        else if strategy c = ''LRU'' then
          (case access_times c of
             [] \<Rightarrow> Inl (ValueError ''min() arg is an empty sequence'')
           | t # ts \<Rightarrow>
               let lru_key = fst (min_by t ts) in
               if has_key lru_key (cache c)
               then Inr (c\<lparr>cache := AList.delete lru_key (cache c),
                           access_times := AList.delete lru_key (access_times c)\<rparr>)
               else Inl KeyError)
        else if strategy c = ''MRU'' then
          (case access_times c of
             [] \<Rightarrow> Inl (ValueError ''max() arg is an empty sequence'')
           | t # ts \<Rightarrow>
               let mru_key = fst (max_by t ts) in
               if has_key mru_key (cache c)
               then Inr (c\<lparr>cache := AList.delete mru_key (cache c),
                           access_times := AList.delete mru_key (access_times c)\<rparr>)
               else Inl KeyError)
        else if strategy c = ''RP'' then
          (if cache c = [] then Inl IndexError
           else
             let n = length (cache c);
                 random_key = fst (cache c ! (rnd (random_seed c) n mod n))
             in Inr (c\<lparr>cache := AList.delete random_key (cache c),
                         access_times := AList.delete random_key (access_times c)\<rparr>))
        else Inr c
      else Inr c)"

text \<open>\<open>get\<close>: the looked-up value (\<open>None\<close> when absent) and the updated instance.\<close>

definition get_cache :: "rat \<Rightarrow> 'k \<Rightarrow> ('k, 'v) CacheWithEviction \<Rightarrow> 'v option \<times> ('k, 'v) CacheWithEviction" where
  "get_cache now key c =
     (if has_key key (cache c) then
        (map_of (cache c) key,
         if strategy c = ''LRU'' \<or> strategy c = ''MRU''
         then c\<lparr>access_times := AList.update key now (access_times c)\<rparr> else c)
      else (None, c))"

text \<open>\<open>put\<close>, with the reading \<open>now\<close> of the clock.\<close>

definition put :: "(int \<Rightarrow> nat \<Rightarrow> nat) \<Rightarrow> rat \<Rightarrow> 'k \<Rightarrow> 'v \<Rightarrow> ('k, 'v) CacheWithEviction
    \<Rightarrow> error + ('k, 'v) CacheWithEviction" where
  "put rnd now key val c =
     (let c1 = (if has_key key (cache c) then c\<lparr>cache := AList.delete key (cache c)\<rparr> else c)
      in case evict rnd c1 of
           Inl e \<Rightarrow> Inl e
         | Inr c2 \<Rightarrow>
             let c3 = c2\<lparr>cache := AList.update key val (cache c2)\<rparr>
             in Inr (if strategy c3 = ''LRU'' \<or> strategy c3 = ''MRU''
                     then c3\<lparr>access_times := AList.update key now (access_times c3)\<rparr>
                     else c3))"

text \<open>A sequence of \<open>put\<close> calls, each with its clock reading; the first exception ends it.\<close>

fun puts :: "(int \<Rightarrow> nat \<Rightarrow> nat) \<Rightarrow> (rat \<times> 'k \<times> 'v) list \<Rightarrow> ('k, 'v) CacheWithEviction
    \<Rightarrow> error + ('k, 'v) CacheWithEviction" where
  "puts rnd [] c = Inr c"
| "puts rnd ((now, key, val) # ops) c =
     (case put rnd now key val c of Inl e \<Rightarrow> Inl e | Inr c' \<Rightarrow> puts rnd ops c')"

text \<open>
  Attribute access on an instance: the names \<open>__init__\<close> defines resolve, every other
  name raises \<open>AttributeError\<close>. No method of the class assigns a further attribute.
\<close>

datatype ('k, 'v) attr =
    ACache "('k \<times> 'v) list"
  | ATimes "('k \<times> rat) list"
  | AInt int
  | AStr string
  | ABool bool

definition getattr_cache :: "('k, 'v) CacheWithEviction \<Rightarrow> string \<Rightarrow> error + ('k, 'v) attr" where
  "getattr_cache c name =
     (if name = ''cache'' then Inr (ACache (cache c))
      else if name = ''access_times'' then Inr (ATimes (access_times c))
      else if name = ''cache_size'' then Inr (AInt (cache_size c))
      else if name = ''strategy'' then Inr (AStr (strategy c))
      else if name = ''random_seed'' then Inr (AInt (random_seed c))
      else if name = ''initialized'' then Inr (ABool (initialized c))
      else Inl (AttributeError name))"

text \<open>\<open>is_full\<close>: \<open>return len(self.cache) >= self.max_size\<close>.\<close>

definition is_full :: "('k, 'v) CacheWithEviction \<Rightarrow> error + bool" where
  "is_full c =
     (case getattr_cache c ''max_size'' of
        Inl e \<Rightarrow> Inl e
      | Inr (AInt max_size) \<Rightarrow> Inr (int (length (cache c)) \<ge> max_size)
      | Inr _ \<Rightarrow> Inl TypeError)"

section \<open>concept\_learner.py: the placeholder methods of Drill\<close>

text \<open>
  The bodies of the placeholder methods are single statements. A statement is an
  expression statement that builds an exception instance and drops it, a \<open>raise\<close>, or a
  \<open>return\<close>; a body that runs off its end returns \<open>None\<close>.
\<close>

datatype 'a stmt = Expr error | Raise error | Return 'a

fun exec_body :: "'a stmt list \<Rightarrow> error + 'a option" where
  "exec_body [] = Inr None"
| "exec_body (Expr e # ss) = exec_body ss"
| "exec_body (Raise e # ss) = Inl e"
| "exec_body (Return v # ss) = Inr (Some v)"

definition Drill_best_hypotheses :: "'s \<Rightarrow> int \<Rightarrow> error + unit option" where
  "Drill_best_hypotheses self n = exec_body [Expr (ValueError ''best_hypotheses'')]"

definition Drill_clean :: "'s \<Rightarrow> error + unit option" where
  "Drill_clean self = exec_body [Expr (ValueError ''clean'')]"

definition Drill_downward_refinement :: "'s \<Rightarrow> 'x \<Rightarrow> error + unit option" where
  "Drill_downward_refinement self args = exec_body [Expr (ValueError ''downward_refinement'')]"

definition Drill_fit :: "'s \<Rightarrow> 'x \<Rightarrow> error + unit option" where
  "Drill_fit self args = exec_body [Expr (ValueError ''fit'')]"

definition Drill_show_search_tree :: "'s \<Rightarrow> string \<Rightarrow> int \<Rightarrow> error + unit option" where
  "Drill_show_search_tree self heading_step top_n = exec_body [Expr (ValueError ''show_search_tree'')]"

definition Drill_terminate_training :: "'s \<Rightarrow> error + unit option" where
  "Drill_terminate_training self = exec_body [Expr (ValueError ''terminate_training'')]"

section \<open>concept\_learner.py: CELOE.next\_node\_to\_expand\<close>

text \<open>
  \<open>_add_node\<close> puts a node into \<open>heuristic_queue\<close> only after \<open>quality_func.apply\<close>
  and \<open>heuristic_func.apply\<close> have assigned its quality and heuristic, so the nodes of
  the queue carry both as numbers. The \<open>SortedSet\<close> is the list of its elements in
  ascending order of the key \<open>HeuristicOrderedNode\<close>: heuristic first, then the order of
  the concepts.
\<close>

record 'c OENode =
  concept :: 'c
  quality :: rat
  heuristic :: rat

definition HeuristicOrderedNode_lt :: "('c::linorder) OENode \<Rightarrow> 'c OENode \<Rightarrow> bool" where
  "HeuristicOrderedNode_lt a b =
     (if heuristic a < heuristic b then True
      else if heuristic a > heuristic b then False
      else concept a < concept b)"

record 'c CELOE =
  heuristic_queue :: "'c OENode list"
  best_only :: bool

text \<open>The \<open>for\<close> loop over \<open>reversed(self.heuristic_queue)\<close> with its \<open>else\<close> clause.\<close>

fun first_below_one :: "'c OENode list \<Rightarrow> error + 'c OENode" where
  "first_below_one [] = Inl (ValueError ''No Node with lesser accuracy found'')"
| "first_below_one (node # rest) = (if quality node < 1 then Inr node else first_below_one rest)"

definition next_node_to_expand :: "'c CELOE \<Rightarrow> int \<Rightarrow> error + 'c OENode" where
  "next_node_to_expand self step =
     (if \<not> best_only self then first_below_one (rev (heuristic_queue self))
      else if heuristic_queue self = [] then Inl IndexError
      else Inr (last (heuristic_queue self)))"

section \<open>utils/static\_funcs.py: compute\_f1\_score\<close>

text \<open>
  A Python float is an IEEE double, a rational with a significand of 53 bits; it is
  kept as the rational it denotes. \<open>py_float\<close> rounds a rational to the nearest
  double, ties to the even significand, as the true division of two integers and each
  operation on floats do. \<open>binary_exponent x\<close> is the \<open>e\<close> with
  \<open>2 ^ e \<le> |x| < 2 ^ (e + 1)\<close>, found from the bit lengths of numerator and
  denominator. The range of the exponent is not limited: the quotients of the sizes of
  sets that fit in memory, and their sums and products, are far from overflow and from
  the subnormal doubles.
\<close>

definition round_half_even :: "rat \<Rightarrow> int" where
  "round_half_even y =
     (let f = \<lfloor>y\<rfloor>; d = y - of_int f
      in if d < 1/2 then f else if d > 1/2 then f + 1 else if even f then f else f + 1)"

definition binary_exponent :: "rat \<Rightarrow> int" where
  "binary_exponent x =
     (case quotient_of \<bar>x\<bar> of
        (p, q) \<Rightarrow>
          (let e0 = bitlen p - bitlen q
           in if 2 powi e0 \<le> \<bar>x\<bar> then e0 else e0 - 1))"

definition py_float :: "rat \<Rightarrow> rat" where
  "py_float x =
     (if x = 0 then 0
      else of_int (round_half_even (x * 2 powi (52 - binary_exponent x)))
           * 2 powi (binary_exponent x - 52))"

text \<open>
  An argument is a Python set object: its class (\<open>set\<close> or \<open>frozenset\<close>), which the
  first assertion compares, and its elements. The two divisions of integers are
  guarded by \<open>try\<close>; the division in the last line is not.
\<close>

datatype pytype = PySet | PyFrozenset

type_synonym 'a pyset = "pytype \<times> 'a set"

definition compute_f1_score :: "'a pyset \<Rightarrow> 'a pyset \<Rightarrow> 'a pyset \<Rightarrow> error + rat" where
  "compute_f1_score individuals pos neg =
     (if \<not> (fst individuals = fst pos \<and> fst pos = fst neg) then Inl AssertionError
      else
        let tp = card (snd pos \<inter> snd individuals);
            tn = card (snd neg - snd individuals);
            fp = card (snd neg \<inter> snd individuals);
            fn = card (snd pos - snd individuals)
        in if tp + fn = 0 then Inr 0
           else
             let recall = py_float (of_nat tp / of_nat (tp + fn))
             in if tp + fp = 0 then Inr 0
                else
                  let precision = py_float (of_nat tp / of_nat (tp + fp))
                  in if precision = 0 \<or> recall = 0 then Inr 0
                     else if py_float (precision + recall) = 0 then Inl ZeroDivisionError
                     else Inr (py_float (2 * py_float (py_float (precision * recall)
                                                       / py_float (precision + recall)))))"

text \<open>
  The count of true positives, and precision and recall as the function computes
  them: the doubles nearest to \<open>tp / (tp + fp)\<close> and \<open>tp / (tp + fn)\<close>.
\<close>

definition true_positives :: "'a set \<Rightarrow> 'a set \<Rightarrow> nat" where
  "true_positives individuals pos = card (pos \<inter> individuals)"

definition precision_of :: "'a set \<Rightarrow> 'a set \<Rightarrow> 'a set \<Rightarrow> rat" where
  "precision_of individuals pos neg =
     py_float (of_nat (card (pos \<inter> individuals))
               / of_nat (card (pos \<inter> individuals) + card (neg \<inter> individuals)))"

definition recall_of :: "'a set \<Rightarrow> 'a set \<Rightarrow> rat" where
  "recall_of individuals pos =
     py_float (of_nat (card (pos \<inter> individuals))
               / of_nat (card (pos \<inter> individuals) + card (pos - individuals)))"

section \<open>knowledge\_base.py: encode\_learning\_problem\<close>

text \<open>
  A learning problem holds its examples \<open>lp.pos\<close> and \<open>lp.neg\<close> as sized
  collections (lists here; a set is a list without repetition) and an optional
  restriction \<open>lp.all\<close> of the universe, given by the individuals it denotes. Of the
  knowledge base the function reads the size of the class hierarchy and the
  individuals of the ontology.
\<close>

record 'a PosNegLPStandard =
  lp_pos :: "'a list"
  lp_neg :: "'a list"
  lp_all :: "'a list option"

record 'a KnowledgeBase =
  class_hierarchy_size :: nat
  all_individuals :: "'a list"

record 'a EncodedPosNegLPStandard =
  kb_pos :: "'a set"
  kb_neg :: "'a set"
  kb_all :: "'a set"
  kb_diff :: "'a set"

text \<open>
  \<open>random.sample(population, k)\<close> draws \<open>k\<close> positions without replacement. Its
  randomness is the list \<open>rs\<close>: the next number, reduced modulo the size of what is left
  of the population, is the position drawn. Every outcome of \<open>random.sample\<close> arises from
  some \<open>rs\<close>, and nothing else does.
\<close>

definition draw_index :: "nat list \<Rightarrow> nat \<Rightarrow> nat" where
  "draw_index rs n = (case rs of [] \<Rightarrow> 0 | r # _ \<Rightarrow> r) mod n"

definition remove_nth :: "nat \<Rightarrow> 'a list \<Rightarrow> 'a list" where
  "remove_nth i xs = take i xs @ drop (Suc i) xs"

fun sample_list :: "nat list \<Rightarrow> 'a list \<Rightarrow> nat \<Rightarrow> 'a list" where
  "sample_list rs pool 0 = []"
| "sample_list rs pool (Suc k) =
     (if pool = [] then []
      else pool ! draw_index rs (length pool)
           # sample_list (tl rs) (remove_nth (draw_index rs (length pool)) pool) k)"

definition random_sample :: "nat list \<Rightarrow> 'a list \<Rightarrow> nat \<Rightarrow> error + 'a list" where
  "random_sample rs population k =
     (if k > length population then Inl (ValueError ''Sample larger than population or is negative'')
      else Inr (sample_list rs population k))"

text \<open>The universe \<open>kb_all\<close>, as the list \<open>list(kb_all)\<close> enumerates it.\<close>

definition universe_list :: "'a KnowledgeBase \<Rightarrow> 'a PosNegLPStandard \<Rightarrow> 'a list" where
  "universe_list kb lp =
     remdups (case lp_all lp of None \<Rightarrow> all_individuals kb | Some inds \<Rightarrow> inds)"

definition encode_learning_problem ::
    "nat list \<Rightarrow> 'a KnowledgeBase \<Rightarrow> 'a PosNegLPStandard \<Rightarrow> error + 'a EncodedPosNegLPStandard" where
  "encode_learning_problem rs kb lp =
     (if \<not> class_hierarchy_size kb > 0 then Inl AssertionError
      else
        let all_list = universe_list kb lp
        in if \<not> (0 < length (lp_pos lp) \<and> length (lp_pos lp) < length all_list
                 \<and> length all_list > length (lp_neg lp))
           then Inl AssertionError
           else
             let pos_set = set (lp_pos lp)
             in case (if length (lp_neg lp) = 0
                      then map_sum id set (random_sample rs all_list (card pos_set))
                      else Inr (set (lp_neg lp))) of
                  Inl e \<Rightarrow> Inl e
                | Inr neg_set \<Rightarrow>
                    if card pos_set \<noteq> length (lp_pos lp) then Inl AssertionError
                    else if lp_neg lp \<noteq> [] \<and> card neg_set \<noteq> length (lp_neg lp)
                    then Inl AssertionError
                    else Inr \<lparr>kb_pos = pos_set, kb_neg = neg_set, kb_all = set all_list,
                              kb_diff = set all_list - (pos_set \<union> neg_set)\<rparr>)"

section \<open>triple\_store.py: unwrapping SPARQL JSON results\<close>

text \<open>
  A JSON object is an association list from keys to values; subscription raises
  \<open>KeyError\<close> on a missing key. A binding is an object of strings (\<open>type\<close>,
  \<open>value\<close>, and for typed literals \<open>datatype\<close>); a row maps variables to bindings.
\<close>

definition getitem :: "(string \<times> 'v) list \<Rightarrow> string \<Rightarrow> error + 'v" where
  "getitem d k = (case map_of d k of None \<Rightarrow> Inl KeyError | Some v \<Rightarrow> Inr v)"

type_synonym json_binding = "(string \<times> string) list"
type_synonym json_row = "(string \<times> json_binding) list"

datatype owl_value = IRI string | OWLLiteral string string

text \<open>
  The inner loop of \<open>unwrap\<close> over the variables of one row, with the list \<open>val\<close>
  built so far. The chain of \<open>elif\<close> has its two literal tests twice; the second
  pair is kept where the source has it.
\<close>

fun unwrap_vars :: "string list \<Rightarrow> json_row \<Rightarrow> owl_value list \<Rightarrow> error + owl_value list" where
  "unwrap_vars [] b val = Inr val"
| "unwrap_vars (v # vs) b val =
     (case getitem b v of
        Inl e \<Rightarrow> Inl e
      | Inr bv \<Rightarrow>
          (case getitem bv ''type'' of
             Inl e \<Rightarrow> Inl e
           | Inr ty \<Rightarrow>
               if ty = ''uri'' then
                 (case getitem bv ''value'' of
                    Inl e \<Rightarrow> Inl e
                  | Inr x \<Rightarrow> unwrap_vars vs b (val @ [IRI x]))
               else if ty = ''bnode'' then unwrap_vars vs b val
               else if ty = ''literal'' \<and> has_key ''datatype'' bv then
                 (case getitem bv ''value'' of
                    Inl e \<Rightarrow> Inl e
                  | Inr x \<Rightarrow>
                      (case getitem bv ''datatype'' of
                         Inl e \<Rightarrow> Inl e
                       | Inr d \<Rightarrow> unwrap_vars vs b (val @ [OWLLiteral x d])))
               else if ty = ''literal'' \<and> \<not> has_key ''datatype'' bv then unwrap_vars vs b val
               else if ty = ''literal'' \<and> has_key ''datatype'' bv then
                 (case getitem bv ''value'' of
                    Inl e \<Rightarrow> Inl e
                  | Inr x \<Rightarrow>
                      (case getitem bv ''datatype'' of
                         Inl e \<Rightarrow> Inl e
                       | Inr d \<Rightarrow> unwrap_vars vs b (val @ [OWLLiteral x d])))
               else if ty = ''literal'' \<and> \<not> has_key ''datatype'' bv then unwrap_vars vs b val
               else Inl NotImplementedError))"

text \<open>
  A generator is the list of what it yields and the exception, if any, that ends it.
  \<open>unwrap\<close> yields once per row: the single collected value, or \<open>None\<close>.
\<close>

type_synonym 'a generator = "'a list \<times> error option"

fun unwrap :: "string list \<Rightarrow> json_row list \<Rightarrow> owl_value option generator" where
  "unwrap vars [] = ([], None)"
| "unwrap vars (b # bs) =
     (case unwrap_vars vars b [] of
        Inl e \<Rightarrow> ([], Some e)
      | Inr val \<Rightarrow>
          (case unwrap vars bs of
             (ys, e) \<Rightarrow> ((if length val = 1 then Some (last val) else None) # ys, e)))"

text \<open>
  \<open>send_http_request_to_ts_and_fetch_results\<close> on a response that was received and
  decoded: \<open>vars\<close> is \<open>json["head"]["vars"]\<close> and \<open>bindings\<close> is
  \<open>json["results"]["bindings"]\<close>. The expected return type is \<open>OWLLiteral\<close> or an
  entity class, named by a string; a yielded item is Python's \<open>None\<close>, a value as
  \<open>unwrap\<close> built it, or the entity class applied to such a value.
\<close>

datatype return_type = OWLLiteral_type | Entity_type string

datatype item = PyNone | Plain owl_value | Entity string owl_value

definition fetch_results :: "return_type \<Rightarrow> string list \<Rightarrow> json_row list \<Rightarrow> item generator" where
  "fetch_results rt vars bindings =
     (case rt of
        OWLLiteral_type \<Rightarrow>
          (case unwrap vars bindings of
             (ys, e) \<Rightarrow> (map (\<lambda>y. case y of None \<Rightarrow> PyNone | Some v \<Rightarrow> Plain v) ys, e))
      | Entity_type cls \<Rightarrow>
          (case unwrap vars bindings of
             (ys, Some e) \<Rightarrow> ([], Some e)
           | (ys, None) \<Rightarrow> (map (Entity cls) (List.map_filter id ys), None)))"

section \<open>semantic\_caching.py: the universal restriction in the caching wrapper\<close>

text \<open>
  A character of a rendered expression is one of the symbols the two regular
  expressions mention, a word character (\<open>\w\<close>, with its code point) or any other
  character (with its code point), such as the connectives of an intersection or
  union or the mark of an inverse property.
\<close>

datatype uchar = Forall | Exists | Neg | Dot | LParen | RParen | Space | Word nat | Other nat

fun is_word :: "uchar \<Rightarrow> bool" where
  "is_word (Word _) = True"
| "is_word _ = False"

text \<open>
  A match of \<open>\<forall> (\w+)\.\(\<not>(\w+)\)\<close> at the head of a string: the two groups and
  the rest after the match. A group \<open>\w+\<close> takes the longest run of word characters;
  since the pattern goes on with a character that is no word character, no shorter run
  can match.
\<close>

definition match_negated :: "uchar list \<Rightarrow> (uchar list \<times> uchar list \<times> uchar list) option" where
  "match_negated s =
     (case s of
        Forall # Space # t \<Rightarrow>
          (let g1 = takeWhile is_word t in
           if g1 = [] then None
           else case dropWhile is_word t of
                  Dot # LParen # Neg # u \<Rightarrow>
                    (let g2 = takeWhile is_word u in
                     if g2 = [] then None
                     else case dropWhile is_word u of
                            RParen # rest \<Rightarrow> Some (g1, g2, rest)
                          | _ \<Rightarrow> None)
                | _ \<Rightarrow> None)
      | _ \<Rightarrow> None)"

text \<open>A match of \<open>\<forall> (\w+)\.(\w+)\<close> at the head of a string.\<close>

definition match_non_negated :: "uchar list \<Rightarrow> (uchar list \<times> uchar list \<times> uchar list) option" where
  "match_non_negated s =
     (case s of
        Forall # Space # t \<Rightarrow>
          (let g1 = takeWhile is_word t in
           if g1 = [] then None
           else case dropWhile is_word t of
                  Dot # u \<Rightarrow>
                    (let g2 = takeWhile is_word u in
                     if g2 = [] then None
                     else Some (g1, g2, dropWhile is_word u))
                | _ \<Rightarrow> None)
      | _ \<Rightarrow> None)"

text \<open>
  \<open>re.sub\<close>: scanning from the left, each match is replaced and the scan goes on
  after it; a character where no match starts is copied. The counter \<open>skip\<close> is the
  number of characters of the last match still to pass over.
\<close>

fun re_sub :: "(uchar list \<Rightarrow> (uchar list \<times> uchar list \<times> uchar list) option)
    \<Rightarrow> (uchar list \<Rightarrow> uchar list \<Rightarrow> uchar list) \<Rightarrow> nat \<Rightarrow> uchar list \<Rightarrow> uchar list" where
  "re_sub m repl skip [] = []"
| "re_sub m repl (Suc skip) (c # cs) = re_sub m repl skip cs"
| "re_sub m repl 0 (c # cs) =
     (case m (c # cs) of
        Some (g1, g2, rest) \<Rightarrow> repl g1 g2 @ re_sub m repl (length cs - length rest) cs
      | None \<Rightarrow> c # re_sub m repl 0 cs)"

definition replacement_negated :: "uchar list \<Rightarrow> uchar list \<Rightarrow> uchar list" where
  "replacement_negated g1 g2 = Exists # Space # g1 @ Dot # g2"

definition replacement_non_negated :: "uchar list \<Rightarrow> uchar list \<Rightarrow> uchar list" where
  "replacement_non_negated g1 g2 = Exists # Space # g1 @ Dot # LParen # Neg # g2 @ [RParen]"

definition transform_forall_to_exists :: "uchar list \<Rightarrow> uchar list" where
  "transform_forall_to_exists expression =
     (let transformed_expression = re_sub match_negated replacement_negated 0 expression
      in re_sub match_non_negated replacement_non_negated 0 transformed_expression)"

text \<open>
  The counters of the wrapper and \<open>retrieve_from_cache\<close>; the clock reading goes to
  \<open>cache.get\<close>.
\<close>

record stats =
  hits :: nat
  misses :: nat

definition retrieve_from_cache :: "rat \<Rightarrow> 'k \<Rightarrow> ('k, 'v) CacheWithEviction \<times> stats
    \<Rightarrow> 'v option \<times> ('k, 'v) CacheWithEviction \<times> stats" where
  "retrieve_from_cache now expression cs =
     (case get_cache now expression (fst cs) of
        (Some cached_result, c') \<Rightarrow> (Some cached_result, c', (snd cs)\<lparr>hits := hits (snd cs) + 1\<rparr>)
      | (None, c') \<Rightarrow> (None, c', (snd cs)\<lparr>misses := misses (snd cs) + 1\<rparr>))"

text \<open>
  The wrapper on an \<open>OWLObjectAllValuesFrom\<close> expression, once the cache needs no
  cold initialisation: \<open>func\<close> is the wrapped retrieval function, as a function of the
  expression (given by its rendering \<open>str_expression\<close>), and \<open>All_individuals\<close> the
  individuals of the ontology. The result is returned with the cache and the counters
  as the call leaves them.
\<close>

definition wrapper_all_values :: "(int \<Rightarrow> nat \<Rightarrow> nat) \<Rightarrow> rat \<Rightarrow> rat \<Rightarrow> (uchar list \<Rightarrow> 'a set) \<Rightarrow> 'a set
    \<Rightarrow> uchar list \<Rightarrow> (uchar list, 'a set) CacheWithEviction \<times> stats
    \<Rightarrow> error + 'a set \<times> (uchar list, 'a set) CacheWithEviction \<times> stats" where
  "wrapper_all_values rnd now_get now_put func All_individuals str_expression cs =
     (let all_values_expr = str_expression;
          some_values_expr = transform_forall_to_exists all_values_expr
      in case retrieve_from_cache now_get some_values_expr cs of
           (cached_result, c1, st1) \<Rightarrow>
             (let result = (case cached_result of
                              Some r \<Rightarrow> All_individuals - r
                            | None \<Rightarrow> func str_expression)
              in case put rnd now_put str_expression result c1 of
                   Inl e \<Rightarrow> Inl e
                 | Inr c2 \<Rightarrow> Inr (result, c2, st1)))"

section \<open>search.py: SearchTreePriorityQueue.add\_node\<close>

text \<open>
  Nodes are objects with identity, shared between the index, the queue and the sets of
  children, so they live in a store from references to node states. A parent
  reference is \<open>None\<close> for a root. Quality and heuristic are optional floats, as the
  slots \<open>_quality\<close> and \<open>_heuristic\<close> are.
\<close>

type_synonym ref = nat

record 'c LBLNode =
  node_concept :: 'c
  node_quality :: "rat option"
  node_heuristic :: "rat option"
  parent_ref :: "ref option"
  children :: "ref set"

record 'c SearchTreePriorityQueue =
  store :: "ref \<Rightarrow> 'c LBLNode"
  nodes :: "'c \<rightharpoonup> ref"
  items_in_queue :: "(rat \<times> ref) list"

text \<open>The property setters of \<open>_NodeQuality\<close> and \<open>_NodeHeuristic\<close>, with their guards.\<close>

definition set_quality :: "rat option \<Rightarrow> 'c LBLNode \<Rightarrow> error + 'c LBLNode" where
  "set_quality v n =
     (if node_quality n \<noteq> None then Inl (ValueError ''Node already evaluated'')
      else Inr (n\<lparr>node_quality := v\<rparr>))"

definition set_heuristic :: "rat option \<Rightarrow> 'c LBLNode \<Rightarrow> error + 'c LBLNode" where
  "set_heuristic v n =
     (if v \<noteq> None \<and> node_heuristic n \<noteq> None
      then Inl (ValueError ''Node heuristic already calculated'')
      else Inr (n\<lparr>node_heuristic := v\<rparr>))"

text \<open>
  Modelled from the spec: \<open>quality_func.apply\<close> and \<open>heuristic_func.apply\<close> belong to
  the metrics and heuristics modules, which are not among the sources. By the
  specification a quality function scores the node against the learning problem and a
  heuristic's \<open>apply\<close> sets \<open>node.heuristic\<close>; each is modelled as the assignment,
  through the setter above, of the number that a scoring function \<open>qf\<close> (\<open>hf\<close>)
  computes from the store and the node.
\<close>

definition quality_func_apply :: "((ref \<Rightarrow> 'c LBLNode) \<Rightarrow> ref \<Rightarrow> rat) \<Rightarrow> ref
    \<Rightarrow> (ref \<Rightarrow> 'c LBLNode) \<Rightarrow> error + (ref \<Rightarrow> 'c LBLNode)" where
  "quality_func_apply qf node h =
     (case set_quality (Some (qf h node)) (h node) of
        Inl e \<Rightarrow> Inl e
      | Inr n \<Rightarrow> Inr (h(node := n)))"

definition heuristic_func_apply :: "((ref \<Rightarrow> 'c LBLNode) \<Rightarrow> ref \<Rightarrow> rat) \<Rightarrow> ref
    \<Rightarrow> (ref \<Rightarrow> 'c LBLNode) \<Rightarrow> error + (ref \<Rightarrow> 'c LBLNode)" where
  "heuristic_func_apply hf node h =
     (case set_heuristic (Some (hf h node)) (h node) of
        Inl e \<Rightarrow> Inl e
      | Inr n \<Rightarrow> Inr (h(node := n)))"

text \<open>Python's \<open>a > b\<close> and unary minus on optional floats: \<open>None\<close> raises \<open>TypeError\<close>.\<close>

fun py_gt :: "rat option \<Rightarrow> rat option \<Rightarrow> error + bool" where
  "py_gt (Some a) (Some b) = Inr (a > b)"
| "py_gt _ _ = Inl TypeError"

fun py_neg :: "rat option \<Rightarrow> error + rat" where
  "py_neg (Some a) = Inr (- a)"
| "py_neg None = Inl TypeError"

text \<open>
  \<open>self.items_in_queue.put((-node.heuristic, HeuristicOrderedNode(node)))\<close>: the
  priority queue is kept as the list of its entries, the newest first.
\<close>

definition queue_put :: "ref \<Rightarrow> 'c SearchTreePriorityQueue \<Rightarrow> error + 'c SearchTreePriorityQueue" where
  "queue_put node st =
     (case py_neg (node_heuristic (store st node)) of
        Inl e \<Rightarrow> Inl e
      | Inr p \<Rightarrow> Inr (st\<lparr>items_in_queue := (p, node) # items_in_queue st\<rparr>))"

definition add_child :: "ref \<Rightarrow> ref \<Rightarrow> (ref \<Rightarrow> 'c LBLNode) \<Rightarrow> (ref \<Rightarrow> 'c LBLNode)" where
  "add_child parent n h = h(parent := (h parent)\<lparr>children := insert n (children (h parent))\<rparr>)"

definition remove_child :: "ref \<Rightarrow> ref \<Rightarrow> (ref \<Rightarrow> 'c LBLNode) \<Rightarrow> error + (ref \<Rightarrow> 'c LBLNode)" where
  "remove_child parent n h =
     (if n \<in> children (h parent)
      then Inr (h(parent := (h parent)\<lparr>children := children (h parent) - {n}\<rparr>))
      else Inl KeyError)"

text \<open>
  \<open>add_node\<close> returns \<open>True\<close>, \<open>False\<close> or \<open>None\<close> together with the tree as the
  call leaves it.
\<close>

definition add_node :: "((ref \<Rightarrow> 'c LBLNode) \<Rightarrow> ref \<Rightarrow> rat) \<Rightarrow> ((ref \<Rightarrow> 'c LBLNode) \<Rightarrow> ref \<Rightarrow> rat)
    \<Rightarrow> ref \<Rightarrow> ref \<Rightarrow> 'c SearchTreePriorityQueue
    \<Rightarrow> error + bool option \<times> 'c SearchTreePriorityQueue" where
  "add_node qf hf node parent_node st =
     (if nodes st (node_concept (store st node)) \<noteq> None
         \<and> parent_ref (store st node) \<noteq> Some parent_node
      then
        (let old_heuristic = node_heuristic (store st node) in
         case heuristic_func_apply hf node (store st) of
           Inl e \<Rightarrow> Inl e
         | Inr h1 \<Rightarrow>
             (let new_heuristic = node_heuristic (h1 node) in
              case py_gt new_heuristic old_heuristic of
                Inl e \<Rightarrow> Inl e
              | Inr False \<Rightarrow> Inr (None, st\<lparr>store := h1\<rparr>)
              | Inr True \<Rightarrow>
                  (case parent_ref (h1 node) of
                     None \<Rightarrow> Inl (AttributeError ''remove_child'')
                   | Some old_parent \<Rightarrow>
                       (case remove_child old_parent node h1 of
                          Inl e \<Rightarrow> Inl e
                        | Inr h2 \<Rightarrow>
                            (let h3 = h2(node := (h2 node)\<lparr>parent_ref := Some parent_node\<rparr>);
                                 h4 = add_child parent_node node h3
                             in case queue_put node (st\<lparr>store := h4\<rparr>) of
                                  Inl e \<Rightarrow> Inl e
                                | Inr st5 \<Rightarrow>
                                    Inr (None,
                                         st5\<lparr>nodes := (nodes st5)(node_concept (h4 node) \<mapsto> node)\<rparr>))))))
      else
        (case quality_func_apply qf node (store st) of
           Inl e \<Rightarrow> Inl e
         | Inr h1 \<Rightarrow>
             if node_quality (h1 node) = Some 0 then Inr (Some False, st\<lparr>store := h1\<rparr>)
             else
               (case heuristic_func_apply hf node h1 of
                  Inl e \<Rightarrow> Inl e
                | Inr h2 \<Rightarrow>
                    (case queue_put node (st\<lparr>store := h2\<rparr>) of
                       Inl e \<Rightarrow> Inl e
                     | Inr st3 \<Rightarrow>
                         (let st4 = st3\<lparr>nodes := (nodes st3)(node_concept (h2 node) \<mapsto> node)\<rparr>;
                              st5 = st4\<lparr>store := add_child parent_node node (store st4)\<rparr>
                          in if node_quality (store st5 node) = Some 1 then Inr (Some True, st5)
                             else Inr (None, st5))))))"

section \<open>Properties of CacheWithEviction\<close>

text \<open>
  What does hold: under the five strategies a successful \<open>put\<close> keeps the keys
  distinct and the number of entries at most one above \<open>cache_size\<close>, so a cache
  built by \<open>__init__\<close> with a capacity that is not negative never holds more than
  \<open>cache_size + 1\<close> entries.
\<close>

lemma length_keys: "distinct (map fst al) \<Longrightarrow> length al = card (fst ` set al)"
  using distinct_card [of "map fst al"] by simp

lemma keys_delete: "fst ` set (AList.delete k al) = fst ` set al - {k}"
  using AList.delete_keys [of k al] by (metis set_map set_removeAll)

lemma length_delete_key:
  assumes "distinct (map fst al)" and "k \<in> fst ` set al"
  shows "Suc (length (AList.delete k al)) = length al"
proof -
  from assms(1) have "distinct (map fst (AList.delete k al))" by (rule AList.distinct_delete)
  then have "length (AList.delete k al) = card (fst ` set al - {k})"
    by (simp add: length_keys keys_delete)
  also from assms(2) have "\<dots> = card (fst ` set al) - 1" by simp
  finally have "length (AList.delete k al) = length al - 1"
    using assms(1) by (simp add: length_keys)
  moreover from assms(2) have "al \<noteq> []" by auto
  ultimately show ?thesis by (cases al) simp_all
qed

lemma has_key_iff: "has_key k d \<longleftrightarrow> k \<in> fst ` set d"
  by (simp add: has_key_def map_of_eq_None_iff)

lemma length_update_key:
  "length (AList.update k v al) = (if k \<in> fst ` set al then length al else Suc (length al))"
  by (induction al) auto

lemma evict_effect:
  assumes d: "distinct (map fst (cache c))"
    and s: "strategy c \<in> {''FIFO'', ''LIFO'', ''LRU'', ''MRU'', ''RP''}"
    and e: "evict rnd c = Inr c'"
    and full: "int (length (cache c)) > cache_size c"
  shows "distinct (map fst (cache c')) \<and> Suc (length (cache c')) = length (cache c)
       \<and> fst ` set (cache c') \<subseteq> fst ` set (cache c)
       \<and> cache_size c' = cache_size c \<and> strategy c' = strategy c"
proof -
  consider (FIFO) "strategy c = ''FIFO''" | (LIFO) "strategy c = ''LIFO''"
    | (LRU) "strategy c = ''LRU''" | (MRU) "strategy c = ''MRU''" | (RP) "strategy c = ''RP''"
    using s by auto
  then show ?thesis
  proof cases
    case FIFO
    with e full d show ?thesis
      by (auto simp: evict_def split: list.splits)
  next
    case LIFO
    with e full have ne: "cache c \<noteq> []" and c': "c' = c\<lparr>cache := butlast (cache c)\<rparr>"
      by (auto simp: evict_def split: if_splits)
    from d have "distinct (butlast (map fst (cache c)))" by (rule distinct_butlast)
    then have "distinct (map fst (butlast (cache c)))" by (simp add: map_butlast)
    moreover have "set (butlast (cache c)) \<subseteq> set (cache c)"
      by (auto dest: in_set_butlastD)
    ultimately show ?thesis using c' ne by auto
  next
    case LRU
    with e full obtain k where k: "has_key k (cache c)"
      and c': "c' = c\<lparr>cache := AList.delete k (cache c), access_times := AList.delete k (access_times c)\<rparr>"
      by (auto simp: evict_def Let_def split: list.splits if_splits)
    from k have "k \<in> fst ` set (cache c)" by (simp add: has_key_iff)
    with d c' show ?thesis
      using length_delete_key [of "cache c" k] AList.distinct_delete [of "cache c" k]
        keys_delete [of k "cache c"]
      by auto
  next
    case MRU
    with e full obtain k where k: "has_key k (cache c)"
      and c': "c' = c\<lparr>cache := AList.delete k (cache c), access_times := AList.delete k (access_times c)\<rparr>"
      by (auto simp: evict_def Let_def split: list.splits if_splits)
    from k have "k \<in> fst ` set (cache c)" by (simp add: has_key_iff)
    with d c' show ?thesis
      using length_delete_key [of "cache c" k] AList.distinct_delete [of "cache c" k]
        keys_delete [of k "cache c"]
      by auto
  next
    case RP
    let ?n = "length (cache c)"
    let ?k = "fst (cache c ! (rnd (random_seed c) ?n mod ?n))"
    from RP e full have ne: "cache c \<noteq> []"
      and c': "c' = c\<lparr>cache := AList.delete ?k (cache c), access_times := AList.delete ?k (access_times c)\<rparr>"
      by (auto simp: evict_def Let_def split: if_splits)
    from ne have "rnd (random_seed c) ?n mod ?n < ?n" by simp
    then have "cache c ! (rnd (random_seed c) ?n mod ?n) \<in> set (cache c)" by (rule nth_mem)
    then have "?k \<in> fst ` set (cache c)" by (rule imageI)
    with d c' show ?thesis
      using length_delete_key [of "cache c" ?k] AList.distinct_delete [of "cache c" ?k]
        keys_delete [of ?k "cache c"]
      by auto
  qed
qed

lemma evict_not_full:
  "\<not> int (length (cache c)) > cache_size c \<Longrightarrow> evict rnd c = Inr c"
  by (simp add: evict_def)


lemma put_size_bound:
  assumes d: "distinct (map fst (cache c))"
    and s: "strategy c \<in> {''FIFO'', ''LIFO'', ''LRU'', ''MRU'', ''RP''}"
    and b: "int (length (cache c)) \<le> cache_size c + 1"
    and p: "put rnd now key val c = Inr c'"
  shows "distinct (map fst (cache c')) \<and> int (length (cache c')) \<le> cache_size c' + 1
       \<and> strategy c' = strategy c \<and> cache_size c' = cache_size c"
proof -
  define c1 where "c1 = (if has_key key (cache c) then c\<lparr>cache := AList.delete key (cache c)\<rparr> else c)"
  have d1: "distinct (map fst (cache c1))"
    using d by (simp add: c1_def AList.distinct_delete)
  have k1: "key \<notin> fst ` set (cache c1)"
    by (simp add: c1_def has_key_iff keys_delete)
  have s1: "strategy c1 = strategy c" and z1: "cache_size c1 = cache_size c"
    by (simp_all add: c1_def)
  have b1: "int (length (cache c1)) \<le> cache_size c + 1"
    using b AList.length_delete_le [of key "cache c"] by (simp add: c1_def)
  from p obtain c2 where e: "evict rnd c1 = Inr c2"
    and c': "c' = (let c3 = c2\<lparr>cache := AList.update key val (cache c2)\<rparr>
                   in if strategy c3 = ''LRU'' \<or> strategy c3 = ''MRU''
                      then c3\<lparr>access_times := AList.update key now (access_times c3)\<rparr> else c3)"
    by (auto simp: put_def c1_def [symmetric] Let_def split: sum.splits)
  have c2: "distinct (map fst (cache c2)) \<and> int (length (cache c2)) \<le> cache_size c
      \<and> key \<notin> fst ` set (cache c2) \<and> cache_size c2 = cache_size c \<and> strategy c2 = strategy c"
  proof (cases "int (length (cache c1)) > cache_size c1")
    case True
    from s s1 have "strategy c1 \<in> {''FIFO'', ''LIFO'', ''LRU'', ''MRU'', ''RP''}" by simp
    from evict_effect [OF d1 this e True] k1 b1 s1 z1 True show ?thesis by auto
  next
    case False
    then have "evict rnd c1 = Inr c1" by (rule evict_not_full)
    with e have "c2 = c1" by simp
    with False d1 k1 s1 z1 show ?thesis by simp
  qed
  then have "length (AList.update key val (cache c2)) = Suc (length (cache c2))"
    by (simp add: length_update_key)
  moreover from c2 have "distinct (map fst (AList.update key val (cache c2)))"
    by (simp add: AList.distinct_update)
  ultimately show ?thesis using c2 c' by (auto simp: Let_def)
qed

lemma puts_size_bound:
  assumes "distinct (map fst (cache c))"
    and "strategy c \<in> {''FIFO'', ''LIFO'', ''LRU'', ''MRU'', ''RP''}"
    and "int (length (cache c)) \<le> cache_size c + 1"
    and "puts rnd ops c = Inr c'"
  shows "int (length (cache c')) \<le> cache_size c + 1"
  using assms
proof (induction ops arbitrary: c)
  case Nil
  then show ?case by simp
next
  case (Cons op ops)
  obtain now key val where op: "op = (now, key, val)" by (cases op)
  with Cons.prems(4) obtain c1 where p: "put rnd now key val c = Inr c1"
    and r: "puts rnd ops c1 = Inr c'"
    by (auto split: sum.splits)
  from put_size_bound [OF Cons.prems(1-3) p]
  have "distinct (map fst (cache c1))" "strategy c1 \<in> {''FIFO'', ''LIFO'', ''LRU'', ''MRU'', ''RP''}"
    "int (length (cache c1)) \<le> cache_size c1 + 1" "cache_size c1 = cache_size c"
    using Cons.prems(2) by simp_all
  with Cons.IH [OF _ _ _ r] show ?case by simp
qed

lemma init_cache_puts_size_bound:
  assumes "0 \<le> n" and "s \<in> {''FIFO'', ''LIFO'', ''LRU'', ''MRU'', ''RP''}"
    and "puts rnd ops (init_cache n s seed) = Inr c'"
  shows "int (length (cache c')) \<le> n + 1"
  using puts_size_bound [of "init_cache n s seed" rnd ops c'] assms
  by (simp add: init_cache_def)

text \<open>
  Claim C1 (the cache never holds more than \<open>cache_size\<close> entries after a \<open>put\<close>)
  fails on the code: \<open>_evict\<close> tests \<open>len(self.cache) > self.cache_size\<close> before the
  insertion, so a cache that is exactly full evicts nothing and the insertion makes it
  one larger than its capacity. With capacity 1, two \<open>put\<close> calls on distinct keys leave
  two entries, under each of the five strategies and whatever the generator and values.
\<close>

theorem put_exceeds_cache_size:
  "map (\<lambda>s. map_sum id (\<lambda>c. (length (cache c), cache_size c))
          (puts rnd [(1, ''A'', va), (2, ''B'', vb)] (init_cache 1 s seed :: (string, 'v) CacheWithEviction)))
     [''FIFO'', ''LIFO'', ''LRU'', ''MRU'', ''RP'']
   = [Inr (2, 1), Inr (2, 1), Inr (2, 1), Inr (2, 1), Inr (2, 1)]"
  by (simp add: put_def evict_def init_cache_def has_key_def)

text \<open>
  Claim C10: \<open>is_full\<close> raises \<open>AttributeError\<close> on every instance, since it reads
  \<open>self.max_size\<close> and the instance has no attribute of that name.
\<close>

theorem is_full_raises_AttributeError:
  "is_full c = Inl (AttributeError ''max_size'')"
  by (simp add: is_full_def getattr_cache_def)

section \<open>Properties of the Drill placeholders\<close>

text \<open>
  Claim C3 (each placeholder method of \<open>Drill\<close> raises at once) fails on the code: the
  bodies of \<open>best_hypotheses\<close>, \<open>clean\<close>, \<open>downward_refinement\<close>, \<open>fit\<close>,
  \<open>show_search_tree\<close> and \<open>terminate_training\<close> build a \<open>ValueError\<close> but have no
  \<open>raise\<close>, so each call returns \<open>None\<close>, whatever the instance and the arguments.
\<close>

theorem Drill_placeholders_return_None:
  "[Drill_best_hypotheses self n, Drill_clean self, Drill_downward_refinement self args,
    Drill_fit self args, Drill_show_search_tree self heading_step top_n,
    Drill_terminate_training self]
   = [Inr None, Inr None, Inr None, Inr None, Inr None, Inr None]"
  by (simp add: Drill_best_hypotheses_def Drill_clean_def Drill_downward_refinement_def
      Drill_fit_def Drill_show_search_tree_def Drill_terminate_training_def)

section \<open>Properties of CELOE.next\_node\_to\_expand\<close>

lemma first_below_one_Inr:
  "first_below_one ns = Inr n \<longleftrightarrow>
     (\<exists>pre post. ns = pre @ n # post \<and> (\<forall>m\<in>set pre. \<not> quality m < 1) \<and> quality n < 1)"
proof (induction ns)
  case Nil
  then show ?case by simp
next
  case (Cons a ns)
  show ?case
  proof (cases "quality a < 1")
    case True
    have "(\<exists>pre post. a # ns = pre @ n # post \<and> (\<forall>m\<in>set pre. \<not> quality m < 1) \<and> quality n < 1)
          \<longleftrightarrow> a = n"
    proof
      assume "\<exists>pre post. a # ns = pre @ n # post \<and> (\<forall>m\<in>set pre. \<not> quality m < 1) \<and> quality n < 1"
      then obtain pre post where h: "a # ns = pre @ n # post" "\<forall>m\<in>set pre. \<not> quality m < 1"
        by blast
      show "a = n"
      proof (cases pre)
        case Nil
        with h show ?thesis by simp
      next
        case (Cons p ps)
        with h True show ?thesis by auto
      qed
    next
      assume "a = n"
      with True have "a # ns = [] @ n # ns \<and> (\<forall>m\<in>set []. \<not> quality m < 1) \<and> quality n < 1"
        by simp
      then show "\<exists>pre post. a # ns = pre @ n # post \<and> (\<forall>m\<in>set pre. \<not> quality m < 1) \<and> quality n < 1"
        by blast
    qed
    with True show ?thesis by auto
  next
    case False
    have "(\<exists>pre post. a # ns = pre @ n # post \<and> (\<forall>m\<in>set pre. \<not> quality m < 1) \<and> quality n < 1)
          \<longleftrightarrow> (\<exists>pre post. ns = pre @ n # post \<and> (\<forall>m\<in>set pre. \<not> quality m < 1) \<and> quality n < 1)"
      (is "?L \<longleftrightarrow> ?R")
    proof
      assume ?L
      then obtain pre post where h: "a # ns = pre @ n # post" "\<forall>m\<in>set pre. \<not> quality m < 1" "quality n < 1"
        by blast
      show ?R
      proof (cases pre)
        case Nil
        with h False show ?thesis by simp
      next
        case (Cons p ps)
        with h have "ns = ps @ n # post \<and> (\<forall>m\<in>set ps. \<not> quality m < 1) \<and> quality n < 1" by simp
        then show ?thesis by blast
      qed
    next
      assume ?R
      then obtain pre post where h: "ns = pre @ n # post" "\<forall>m\<in>set pre. \<not> quality m < 1" "quality n < 1"
        by blast
      with False have "a # ns = (a # pre) @ n # post \<and> (\<forall>m\<in>set (a # pre). \<not> quality m < 1) \<and> quality n < 1"
        by simp
      then show ?L by blast
    qed
    with False Cons.IH show ?thesis by simp
  qed
qed

lemma first_below_one_Inl:
  "(\<forall>m\<in>set ns. \<not> quality m < 1) \<Longrightarrow>
     first_below_one ns = Inl (ValueError ''No Node with lesser accuracy found'')"
  by (induction ns) auto

lemma first_below_one_found:
  "\<exists>m\<in>set ns. quality m < 1 \<Longrightarrow> \<exists>n. first_below_one ns = Inr n"
  by (induction ns) auto

lemma sorted_queue_last_best:
  assumes "sorted_wrt HeuristicOrderedNode_lt q" and "n \<in> set q"
  shows "heuristic n \<le> heuristic (last q)"
proof (cases "n = last q")
  case True
  then show ?thesis by simp
next
  case False
  from assms(2) have ne: "q \<noteq> []" by auto
  then have q: "q = butlast q @ [last q]" by simp
  with assms(2) False have "n \<in> set (butlast q)"
    by (metis Un_iff empty_iff empty_set insert_iff list.simps(15) set_append)
  moreover from assms(1) q have "\<forall>x\<in>set (butlast q). HeuristicOrderedNode_lt x (last q)"
    by (metis sorted_wrt_append list.set_intros(1))
  ultimately have "HeuristicOrderedNode_lt n (last q)" by blast
  then show ?thesis
    by (auto simp: HeuristicOrderedNode_lt_def split: if_splits)
qed

text \<open>
  Claim C4: on a non-empty heuristic queue, without \<open>best_only\<close> the result is the first
  node of the reversed queue (the scan from the best end) whose quality is below 1, and
  the \<open>ValueError\<close> when no node of the queue has quality below 1; with \<open>best_only\<close> it
  is the last node of the queue, the heuristically best one, whatever its quality.
\<close>

theorem next_node_to_expand_spec:
  assumes "heuristic_queue self \<noteq> []"
  shows "(\<not> best_only self \<longrightarrow>
            ((\<exists>m\<in>set (heuristic_queue self). quality m < 1) \<longrightarrow>
               (\<exists>pre n post. rev (heuristic_queue self) = pre @ n # post
                   \<and> (\<forall>m\<in>set pre. \<not> quality m < 1) \<and> quality n < 1
                   \<and> next_node_to_expand self step = Inr n))
          \<and> ((\<forall>m\<in>set (heuristic_queue self). \<not> quality m < 1) \<longrightarrow>
               next_node_to_expand self step = Inl (ValueError ''No Node with lesser accuracy found'')))
       \<and> (best_only self \<longrightarrow> next_node_to_expand self step = Inr (last (heuristic_queue self)))"
proof (intro conjI impI)
  assume nb: "\<not> best_only self" and ex: "\<exists>m\<in>set (heuristic_queue self). quality m < 1"
  from ex have "\<exists>m\<in>set (rev (heuristic_queue self)). quality m < 1" by simp
  then obtain n where n: "first_below_one (rev (heuristic_queue self)) = Inr n"
    using first_below_one_found by blast
  then obtain pre post where "rev (heuristic_queue self) = pre @ n # post"
      "\<forall>m\<in>set pre. \<not> quality m < 1" "quality n < 1"
    using first_below_one_Inr by blast
  moreover from nb n have "next_node_to_expand self step = Inr n"
    by (simp add: next_node_to_expand_def)
  ultimately show "\<exists>pre n post. rev (heuristic_queue self) = pre @ n # post
      \<and> (\<forall>m\<in>set pre. \<not> quality m < 1) \<and> quality n < 1 \<and> next_node_to_expand self step = Inr n"
    by blast
next
  assume nb: "\<not> best_only self" and all: "\<forall>m\<in>set (heuristic_queue self). \<not> quality m < 1"
  from all have "\<forall>m\<in>set (rev (heuristic_queue self)). \<not> quality m < 1" by simp
  then have "first_below_one (rev (heuristic_queue self)) = Inl (ValueError ''No Node with lesser accuracy found'')"
    by (rule first_below_one_Inl)
  with nb show "next_node_to_expand self step = Inl (ValueError ''No Node with lesser accuracy found'')"
    by (simp add: next_node_to_expand_def)
next
  assume "best_only self"
  with assms show "next_node_to_expand self step = Inr (last (heuristic_queue self))"
    by (simp add: next_node_to_expand_def)
qed

theorem next_node_to_expand_spec_witness:
  "heuristic_queue \<lparr>heuristic_queue = [\<lparr>concept = 1::nat, quality = 1/2, heuristic = 1/3\<rparr>,
                                        \<lparr>concept = 2, quality = 1, heuristic = 2/3\<rparr>],
                    best_only = False\<rparr> \<noteq> []
   \<and> next_node_to_expand \<lparr>heuristic_queue = [\<lparr>concept = 1::nat, quality = 1/2, heuristic = 1/3\<rparr>,
                                        \<lparr>concept = 2, quality = 1, heuristic = 2/3\<rparr>],
                    best_only = False\<rparr> 1
     = Inr \<lparr>concept = 1, quality = 1/2, heuristic = 1/3\<rparr>"
  using next_node_to_expand_spec [of "\<lparr>heuristic_queue = [\<lparr>concept = 1::nat, quality = 1/2, heuristic = 1/3\<rparr>,
                                        \<lparr>concept = 2, quality = 1, heuristic = 2/3\<rparr>],
                    best_only = False\<rparr>" 1]
  by (simp add: next_node_to_expand_def)


section \<open>Properties of compute\_f1\_score\<close>

text \<open>
  Rounding to the nearest double keeps a positive number positive, so a precision or
  recall is zero only when there is no true positive, and the last division never
  divides by zero.
\<close>

lemma round_half_even_ge: "\<lfloor>y\<rfloor> \<le> round_half_even y"
  by (simp add: round_half_even_def Let_def)

lemma round_half_even_pos: "1 \<le> y \<Longrightarrow> 1 \<le> round_half_even y"
proof -
  assume "1 \<le> y"
  then have "1 \<le> \<lfloor>y\<rfloor>" by (simp add: le_floor_iff)
  with round_half_even_ge [of y] show ?thesis by linarith
qed

lemma quotient_lower_bound:
  assumes "0 < p" and "0 < q"
  shows "(2::rat) powi (bitlen p - bitlen q - 1) < of_int p / of_int q"
proof -
  from assms have bp: "1 \<le> bitlen p" and bq: "1 \<le> bitlen q"
    by (simp_all add: bitlen_alt_def)
  from bitlen_bounds [OF assms(1)] have lo: "2 ^ nat (bitlen p - 1) \<le> p" by simp
  from bitlen_bounds [OF assms(2)] have hi: "q < 2 ^ nat (bitlen q)" by simp
  have "(2::rat) powi (bitlen p - bitlen q - 1) = 2 powi (bitlen p - 1) / 2 powi (bitlen q)"
    using power_int_diff [of "2::rat" "bitlen p - 1" "bitlen q"] by (simp add: algebra_simps)
  also have "\<dots> = 2 ^ nat (bitlen p - 1) / 2 ^ nat (bitlen q)"
    using bp bq by (simp add: power_int_def)
  also have "\<dots> \<le> of_int p / 2 ^ nat (bitlen q)"
  proof -
    from lo have "(of_int (2 ^ nat (bitlen p - 1)) :: rat) \<le> of_int p" by (simp only: of_int_le_iff)
    then have "(2 ^ nat (bitlen p - 1) :: rat) \<le> of_int p" by simp
    then show ?thesis by (simp add: divide_right_mono)
  qed
  also have "\<dots> < of_int p / of_int q"
  proof -
    from hi have "(of_int q :: rat) < of_int (2 ^ nat (bitlen q))" by (simp only: of_int_less_iff)
    then have "(of_int q :: rat) < 2 ^ nat (bitlen q)" by simp
    with assms show ?thesis by (simp add: divide_strict_left_mono)
  qed
  finally show ?thesis .
qed

lemma binary_exponent_bound:
  assumes "0 < x"
  shows "(2::rat) powi (binary_exponent x - 1) < x"
proof -
  obtain p q where pq: "quotient_of x = (p, q)" by (cases "quotient_of x")
  then have q: "0 < q" by (rule quotient_of_denom_pos)
  from pq have x: "x = of_int p / of_int q" by (rule quotient_of_div)
  with assms q have p: "0 < p" by (simp add: zero_less_divide_iff)
  let ?e0 = "bitlen p - bitlen q"
  from assms pq have "binary_exponent x \<le> ?e0"
    by (simp add: binary_exponent_def Let_def)
  then have "(2::rat) powi (binary_exponent x - 1) \<le> 2 powi (?e0 - 1)"
    by (intro power_int_increasing) simp_all
  also from quotient_lower_bound [OF p q] x have "\<dots> < x" by simp
  finally show ?thesis .
qed

lemma py_float_pos:
  assumes "0 < x"
  shows "0 < py_float x"
proof -
  let ?e = "binary_exponent x"
  have "(2::rat) powi (?e - 52) \<le> 2 powi (?e - 1)"
    by (intro power_int_increasing) simp_all
  also from assms have "\<dots> < x" by (rule binary_exponent_bound)
  finally have lt: "(2::rat) powi (?e - 52) < x" .
  have inv: "(2::rat) powi (52 - ?e) * 2 powi (?e - 52) = 1"
    using power_int_add [of "2::rat" "52 - ?e" "?e - 52"] by simp
  have pos: "(0::rat) < 2 powi (52 - ?e)" by simp
  from lt pos have "2 powi (52 - ?e) * 2 powi (?e - 52) < 2 powi (52 - ?e) * x"
    by (rule mult_strict_left_mono)
  with inv have "1 \<le> x * 2 powi (52 - ?e)" by (simp add: mult.commute)
  then have "1 \<le> round_half_even (x * 2 powi (52 - ?e))" by (rule round_half_even_pos)
  then have "(0::rat) < of_int (round_half_even (x * 2 powi (52 - ?e)))" by simp
  moreover have "(0::rat) < 2 powi (?e - 52)" by simp
  ultimately have "0 < of_int (round_half_even (x * 2 powi (52 - ?e))) * (2::rat) powi (?e - 52)"
    by (rule mult_pos_pos)
  with assms show ?thesis by (simp add: py_float_def)
qed

text \<open>
  Claim C9, amended: when the three sets are not of the same Python class the leading
  assertion raises \<open>AssertionError\<close>; when they are, the score is exactly 0 if no
  positive is among the individuals (so also when the individuals are empty, and when
  a denominator is zero), and otherwise it is the double that
  \<open>2 * ((precision * recall) / (precision + recall))\<close> gives with each operation
  rounded; nothing else is raised.
\<close>

theorem compute_f1_score_spec:
  "(\<not> (fst individuals = fst pos \<and> fst pos = fst neg) \<longrightarrow>
       compute_f1_score individuals pos neg = Inl AssertionError)
   \<and> (fst individuals = fst pos \<and> fst pos = fst neg \<longrightarrow>
        (true_positives (snd individuals) (snd pos) = 0 \<longrightarrow>
           compute_f1_score individuals pos neg = Inr 0)
      \<and> (snd individuals = {} \<longrightarrow> compute_f1_score individuals pos neg = Inr 0)
      \<and> (true_positives (snd individuals) (snd pos) \<noteq> 0 \<longrightarrow>
           compute_f1_score individuals pos neg =
             Inr (py_float (2 * py_float
                    (py_float (precision_of (snd individuals) (snd pos) (snd neg)
                               * recall_of (snd individuals) (snd pos))
                     / py_float (precision_of (snd individuals) (snd pos) (snd neg)
                                 + recall_of (snd individuals) (snd pos)))))))"
proof (intro conjI impI)
  assume "\<not> (fst individuals = fst pos \<and> fst pos = fst neg)"
  then show "compute_f1_score individuals pos neg = Inl AssertionError"
    by (simp add: compute_f1_score_def)
next
  assume "fst individuals = fst pos \<and> fst pos = fst neg"
    and "true_positives (snd individuals) (snd pos) = 0"
  then show "compute_f1_score individuals pos neg = Inr 0"
    by (simp add: compute_f1_score_def true_positives_def Let_def py_float_def)
next
  assume "fst individuals = fst pos \<and> fst pos = fst neg" and "snd individuals = {}"
  then show "compute_f1_score individuals pos neg = Inr 0"
    by (simp add: compute_f1_score_def Let_def py_float_def)
next
  let ?tp = "card (snd pos \<inter> snd individuals)"
  let ?fp = "card (snd neg \<inter> snd individuals)"
  let ?fn = "card (snd pos - snd individuals)"
  let ?P = "precision_of (snd individuals) (snd pos) (snd neg)"
  let ?R = "recall_of (snd individuals) (snd pos)"
  assume same: "fst individuals = fst pos \<and> fst pos = fst neg"
    and "true_positives (snd individuals) (snd pos) \<noteq> 0"
  then have tp: "0 < ?tp" by (simp add: true_positives_def)
  then have "(0::rat) < of_nat ?tp / of_nat (?tp + ?fp)" and "(0::rat) < of_nat ?tp / of_nat (?tp + ?fn)"
    by simp_all
  then have P: "0 < ?P" and R: "0 < ?R"
    unfolding precision_of_def recall_of_def by (simp_all only: py_float_pos)
  then have "0 < ?P + ?R" by simp
  then have S: "0 < py_float (?P + ?R)" by (rule py_float_pos)
  from P R S have nz: "?P \<noteq> 0" "?R \<noteq> 0" "py_float (?P + ?R) \<noteq> 0" by simp_all
  from tp have d: "?tp + ?fn \<noteq> 0" "?tp + ?fp \<noteq> 0" by simp_all
  have "compute_f1_score individuals pos neg =
      (if ?P = 0 \<or> ?R = 0 then Inr 0
       else if py_float (?P + ?R) = 0 then Inl ZeroDivisionError
       else Inr (py_float (2 * py_float (py_float (?P * ?R) / py_float (?P + ?R)))))"
    unfolding compute_f1_score_def Let_def precision_of_def recall_of_def
    using same d by (simp only: simp_thms if_False if_True)
  with nz show "compute_f1_score individuals pos neg =
      Inr (py_float (2 * py_float (py_float (?P * ?R) / py_float (?P + ?R))))"
    by (simp only: simp_thms if_False)
qed

text \<open>
  On the individuals 1, 2, the positives 2, 3 and the negative 4, precision is 1 and
  recall is 1/2, and the score is the double nearest to 2/3, printed
  \<open>0.6666666666666666\<close>.
\<close>

theorem compute_f1_score_spec_witness:
  "fst (PySet, {1::nat, 2}) = fst (PySet, {2::nat, 3}) \<and> fst (PySet, {2::nat, 3}) = fst (PySet, {4::nat})
   \<and> true_positives (snd (PySet, {1::nat, 2})) (snd (PySet, {2::nat, 3})) \<noteq> 0
   \<and> compute_f1_score (PySet, {1::nat, 2}) (PySet, {2, 3}) (PySet, {4})
       = Inr (6004799503160661 / 2 ^ 53)"
proof -
  have tp: "true_positives (snd (PySet, {1::nat, 2})) (snd (PySet, {2::nat, 3})) \<noteq> 0"
    by (simp add: true_positives_def)
  have P: "precision_of (snd (PySet, {1::nat, 2})) (snd (PySet, {2::nat, 3})) (snd (PySet, {4::nat})) = 1"
    by code_simp
  have R: "recall_of (snd (PySet, {1::nat, 2})) (snd (PySet, {2::nat, 3})) = 1 / 2"
    by code_simp
  have v: "py_float (2 * py_float (py_float (1 * (1 / 2)) / py_float (1 + 1 / 2)))
             = 6004799503160661 / 2 ^ 53"
    by code_simp
  from compute_f1_score_spec [of "(PySet, {1::nat, 2})" "(PySet, {2, 3})" "(PySet, {4})"] tp
  have "compute_f1_score (PySet, {1::nat, 2}) (PySet, {2, 3}) (PySet, {4})
          = Inr (py_float (2 * py_float (py_float (1 * (1 / 2)) / py_float (1 + 1 / 2))))"
    by (simp only: P R fst_conv simp_thms)
  with v tp show ?thesis by simp
qed

text \<open>
  Claim C9 as stated, for every triple of sets, fails: the first statement of the
  function asserts that the three arguments have the same class, so an empty \<open>set\<close> of
  individuals with \<open>frozenset\<close> examples raises \<open>AssertionError\<close>.
\<close>

theorem compute_f1_score_counterexample:
  "compute_f1_score (PySet, {}) (PyFrozenset, {1::nat}) (PyFrozenset, {2}) = Inl AssertionError"
  by (simp add: compute_f1_score_def)

section \<open>Properties of encode\_learning\_problem\<close>

lemma draw_index_less: "0 < n \<Longrightarrow> draw_index rs n < n"
  by (simp add: draw_index_def)

lemma remove_nth_set: "set (remove_nth i xs) \<subseteq> set xs"
  using set_take_subset [of i xs] set_drop_subset [of "Suc i" xs]
  by (auto simp: remove_nth_def)

lemma remove_nth_length: "i < length xs \<Longrightarrow> length (remove_nth i xs) = length xs - 1"
  by (simp add: remove_nth_def)

lemma remove_nth_distinct:
  assumes "distinct xs" and "i < length xs"
  shows "distinct (remove_nth i xs) \<and> xs ! i \<notin> set (remove_nth i xs)"
proof -
  from assms(2) have "xs = take i xs @ xs ! i # drop (Suc i) xs"
    by (rule id_take_nth_drop)
  with assms(1) have "distinct (take i xs @ xs ! i # drop (Suc i) xs)" by simp
  then show ?thesis by (auto simp: remove_nth_def)
qed

lemma sample_list_subset: "set (sample_list rs pool k) \<subseteq> set pool"
proof (induction k arbitrary: rs pool)
  case 0
  show ?case by simp
next
  case (Suc k)
  show ?case
  proof (cases "pool = []")
    case True
    then show ?thesis by simp
  next
    case False
    let ?i = "draw_index rs (length pool)"
    from False have i: "?i < length pool" by (simp add: draw_index_less)
    have "set (sample_list (tl rs) (remove_nth ?i pool) k) \<subseteq> set (remove_nth ?i pool)"
      by (rule Suc.IH)
    with remove_nth_set [of ?i pool]
    have "set (sample_list (tl rs) (remove_nth ?i pool) k) \<subseteq> set pool"
      by auto
    moreover from i have "pool ! ?i \<in> set pool" by (rule nth_mem)
    ultimately show ?thesis using False by simp
  qed
qed

lemma sample_list_length: "k \<le> length pool \<Longrightarrow> length (sample_list rs pool k) = k"
proof (induction k arbitrary: rs pool)
  case 0
  show ?case by simp
next
  case (Suc k)
  let ?i = "draw_index rs (length pool)"
  from Suc.prems have ne: "pool \<noteq> []" by auto
  then have "?i < length pool" by (simp add: draw_index_less)
  then have "length (remove_nth ?i pool) = length pool - 1" by (rule remove_nth_length)
  with Suc.prems have "k \<le> length (remove_nth ?i pool)" by simp
  then have "length (sample_list (tl rs) (remove_nth ?i pool) k) = k" by (rule Suc.IH)
  with ne show ?case by simp
qed

lemma sample_list_distinct: "distinct pool \<Longrightarrow> distinct (sample_list rs pool k)"
proof (induction k arbitrary: rs pool)
  case 0
  show ?case by simp
next
  case (Suc k)
  show ?case
  proof (cases "pool = []")
    case True
    then show ?thesis by simp
  next
    case False
    let ?i = "draw_index rs (length pool)"
    from False have i: "?i < length pool" by (simp add: draw_index_less)
    from remove_nth_distinct [OF Suc.prems i]
    have d: "distinct (remove_nth ?i pool)" by (rule conjunct1)
    from remove_nth_distinct [OF Suc.prems i]
    have n: "pool ! ?i \<notin> set (remove_nth ?i pool)" by (rule conjunct2)
    from d have "distinct (sample_list (tl rs) (remove_nth ?i pool) k)" by (rule Suc.IH)
    moreover from n sample_list_subset [of "tl rs" "remove_nth ?i pool" k]
    have "pool ! ?i \<notin> set (sample_list (tl rs) (remove_nth ?i pool) k)" by auto
    ultimately show ?thesis using False by simp
  qed
qed

lemma universe_list_distinct: "distinct (universe_list kb lp)"
  by (simp add: universe_list_def)


lemma encode_learning_problem_Inr:
  assumes "encode_learning_problem rs kb lp = Inr e"
  shows "e = \<lparr>kb_pos = set (lp_pos lp),
              kb_neg = (if lp_neg lp = []
                        then set (sample_list rs (universe_list kb lp) (card (set (lp_pos lp))))
                        else set (lp_neg lp)),
              kb_all = set (universe_list kb lp),
              kb_diff = set (universe_list kb lp)
                 - (set (lp_pos lp)
                    \<union> (if lp_neg lp = []
                        then set (sample_list rs (universe_list kb lp) (card (set (lp_pos lp))))
                        else set (lp_neg lp)))\<rparr>
         \<and> (lp_neg lp = [] \<longrightarrow> card (set (lp_pos lp)) \<le> length (universe_list kb lp))"
proof (cases "lp_neg lp = []")
  case True
  with assms show ?thesis
    unfolding encode_learning_problem_def random_sample_def Let_def
    by (simp split: if_splits)
next
  case False
  with assms show ?thesis
    unfolding encode_learning_problem_def random_sample_def Let_def
    by (simp split: if_splits)
qed

lemma encode_run_supplied:
  "encode_learning_problem [] \<lparr>class_hierarchy_size = 1, all_individuals = [1::nat, 2, 3]\<rparr>
       \<lparr>lp_pos = [1], lp_neg = [2], lp_all = None\<rparr>
     = Inr \<lparr>kb_pos = {1}, kb_neg = {2}, kb_all = {1, 2, 3}, kb_diff = {3}\<rparr>"
  unfolding encode_learning_problem_def universe_list_def Let_def
  by auto

lemma encode_run_sampled:
  "encode_learning_problem [r] \<lparr>class_hierarchy_size = 1, all_individuals = [1::nat, 2, 3]\<rparr>
       \<lparr>lp_pos = [1], lp_neg = [], lp_all = None\<rparr>
     = Inr \<lparr>kb_pos = {1}, kb_neg = {[1, 2, 3] ! (r mod 3)}, kb_all = {1, 2, 3},
            kb_diff = {1, 2, 3} - ({1} \<union> {[1, 2, 3] ! (r mod 3)})\<rparr>"
  unfolding encode_learning_problem_def universe_list_def random_sample_def Let_def
  by (simp add: draw_index_def)

text \<open>
  Claim C6: the encoding fails with \<open>AssertionError\<close> unless the positives are
  non-empty and both the positives and the negatives are fewer than the individuals of
  the universe; when it succeeds, \<open>kb_all\<close> is the universe and \<open>kb_diff\<close> is
  \<open>kb_all\<close> without the union of \<open>kb_pos\<close> and \<open>kb_neg\<close>.
\<close>

theorem encode_learning_problem_spec:
  "(\<not> (0 < length (lp_pos lp) \<and> length (lp_pos lp) < card (set (universe_list kb lp))
        \<and> length (lp_neg lp) < card (set (universe_list kb lp)))
      \<longrightarrow> encode_learning_problem rs kb lp = Inl AssertionError)
   \<and> (\<forall>e. encode_learning_problem rs kb lp = Inr e \<longrightarrow>
          kb_all e = set (universe_list kb lp) \<and> kb_diff e = kb_all e - (kb_pos e \<union> kb_neg e))"
proof (intro conjI impI allI)
  assume "\<not> (0 < length (lp_pos lp) \<and> length (lp_pos lp) < card (set (universe_list kb lp))
        \<and> length (lp_neg lp) < card (set (universe_list kb lp)))"
  then have "\<not> (0 < length (lp_pos lp) \<and> length (lp_pos lp) < length (universe_list kb lp)
        \<and> length (universe_list kb lp) > length (lp_neg lp))"
    by (simp add: distinct_card [OF universe_list_distinct])
  then show "encode_learning_problem rs kb lp = Inl AssertionError"
    unfolding encode_learning_problem_def Let_def by simp
next
  fix e assume "encode_learning_problem rs kb lp = Inr e"
  from encode_learning_problem_Inr [OF this]
  show "kb_all e = set (universe_list kb lp)" by simp
next
  fix e assume "encode_learning_problem rs kb lp = Inr e"
  from encode_learning_problem_Inr [OF this]
  show "kb_diff e = kb_all e - (kb_pos e \<union> kb_neg e)" by simp
qed

theorem encode_learning_problem_spec_witness:
  "encode_learning_problem [] \<lparr>class_hierarchy_size = 1, all_individuals = [1::nat, 2, 3]\<rparr>
       \<lparr>lp_pos = [1], lp_neg = [2], lp_all = None\<rparr>
     = Inr \<lparr>kb_pos = {1}, kb_neg = {2}, kb_all = {1, 2, 3}, kb_diff = {3}\<rparr>
   \<and> kb_diff \<lparr>kb_pos = {1::nat}, kb_neg = {2}, kb_all = {1, 2, 3}, kb_diff = {3}\<rparr>
       = kb_all \<lparr>kb_pos = {1::nat}, kb_neg = {2}, kb_all = {1, 2, 3}, kb_diff = {3}\<rparr>
         - (kb_pos \<lparr>kb_pos = {1::nat}, kb_neg = {2}, kb_all = {1, 2, 3}, kb_diff = {3}\<rparr>
            \<union> kb_neg \<lparr>kb_pos = {1::nat}, kb_neg = {2}, kb_all = {1, 2, 3}, kb_diff = {3}\<rparr>)"
proof -
  let ?kb = "\<lparr>class_hierarchy_size = 1, all_individuals = [1::nat, 2, 3]\<rparr>"
  let ?lp = "\<lparr>lp_pos = [1::nat], lp_neg = [2], lp_all = None\<rparr>"
  let ?e = "\<lparr>kb_pos = {1::nat}, kb_neg = {2}, kb_all = {1, 2, 3}, kb_diff = {3}\<rparr>"
  have run: "encode_learning_problem [] ?kb ?lp = Inr ?e" by (rule encode_run_supplied)
  from encode_learning_problem_spec [of ?lp ?kb "[]"]
  have "\<forall>e. encode_learning_problem [] ?kb ?lp = Inr e \<longrightarrow>
          kb_all e = set (universe_list ?kb ?lp) \<and> kb_diff e = kb_all e - (kb_pos e \<union> kb_neg e)"
    by (rule conjunct2)
  then have "encode_learning_problem [] ?kb ?lp = Inr ?e \<longrightarrow>
          kb_all ?e = set (universe_list ?kb ?lp) \<and> kb_diff ?e = kb_all ?e - (kb_pos ?e \<union> kb_neg ?e)"
    by (rule spec)
  with run have "kb_diff ?e = kb_all ?e - (kb_pos ?e \<union> kb_neg ?e)" by blast
  with run show ?thesis by (rule conjI)
qed

text \<open>
  Claim C2, amended: on success the encoded positives are the supplied positives; when
  negatives are supplied, the encoded negatives are the supplied ones, so the two
  encoded sets are disjoint exactly when the supplied ones are; when no negatives are
  supplied, the encoded negatives are drawn without repetition from the whole universe
  and are as many as the encoded positives.
\<close>

theorem encode_learning_problem_pos_neg:
  assumes "encode_learning_problem rs kb lp = Inr e"
  shows "kb_pos e = set (lp_pos lp)
       \<and> (lp_neg lp \<noteq> [] \<longrightarrow> kb_neg e = set (lp_neg lp)
            \<and> (kb_pos e \<inter> kb_neg e = {} \<longleftrightarrow> set (lp_pos lp) \<inter> set (lp_neg lp) = {}))
       \<and> (lp_neg lp = [] \<longrightarrow> kb_neg e \<subseteq> kb_all e \<and> card (kb_neg e) = card (kb_pos e))"
proof -
  note E = encode_learning_problem_Inr [OF assms]
  from E have p: "kb_pos e = set (lp_pos lp)" by simp
  from E have a: "kb_all e = set (universe_list kb lp)" by simp
  have supplied: "kb_neg e = set (lp_neg lp)
       \<and> (kb_pos e \<inter> kb_neg e = {} \<longleftrightarrow> set (lp_pos lp) \<inter> set (lp_neg lp) = {})"
    if "lp_neg lp \<noteq> []"
  proof -
    from E that have "kb_neg e = set (lp_neg lp)" by simp
    with p show ?thesis by simp
  qed
  have sampled: "kb_neg e \<subseteq> kb_all e \<and> card (kb_neg e) = card (kb_pos e)" if "lp_neg lp = []"
  proof -
    let ?k = "card (set (lp_pos lp))"
    from E that have s: "kb_neg e = set (sample_list rs (universe_list kb lp) ?k)" by simp
    from E that have k: "?k \<le> length (universe_list kb lp)" by simp
    from sample_list_subset [of rs "universe_list kb lp" ?k] s a
    have sub: "kb_neg e \<subseteq> kb_all e" by simp
    have "distinct (sample_list rs (universe_list kb lp) ?k)"
      by (rule sample_list_distinct) (rule universe_list_distinct)
    then have "card (set (sample_list rs (universe_list kb lp) ?k))
        = length (sample_list rs (universe_list kb lp) ?k)"
      by (rule distinct_card)
    also from k have "\<dots> = ?k" by (rule sample_list_length)
    finally have "card (kb_neg e) = card (kb_pos e)" using s p by simp
    with sub show ?thesis by (rule conjI)
  qed
  from p supplied sampled show ?thesis by blast
qed

theorem encode_learning_problem_pos_neg_witness:
  "encode_learning_problem [1] \<lparr>class_hierarchy_size = 1, all_individuals = [1::nat, 2, 3]\<rparr>
       \<lparr>lp_pos = [1], lp_neg = [], lp_all = None\<rparr>
     = Inr \<lparr>kb_pos = {1}, kb_neg = {2}, kb_all = {1, 2, 3}, kb_diff = {3}\<rparr>
   \<and> card (kb_neg \<lparr>kb_pos = {1::nat}, kb_neg = {2}, kb_all = {1, 2, 3}, kb_diff = {3}\<rparr>)
       = card (kb_pos \<lparr>kb_pos = {1::nat}, kb_neg = {2}, kb_all = {1, 2, 3}, kb_diff = {3}\<rparr>)"
proof -
  let ?kb = "\<lparr>class_hierarchy_size = 1, all_individuals = [1::nat, 2, 3]\<rparr>"
  let ?lp = "\<lparr>lp_pos = [1::nat], lp_neg = [], lp_all = None\<rparr>"
  let ?e = "\<lparr>kb_pos = {1::nat}, kb_neg = {2}, kb_all = {1, 2, 3}, kb_diff = {3}\<rparr>"
  have run: "encode_learning_problem [1] ?kb ?lp = Inr ?e"
    using encode_run_sampled [of 1] by auto
  from encode_learning_problem_pos_neg [OF run]
  have "lp_neg ?lp = [] \<longrightarrow> kb_neg ?e \<subseteq> kb_all ?e \<and> card (kb_neg ?e) = card (kb_pos ?e)"
    by blast
  then have "card (kb_neg ?e) = card (kb_pos ?e)" by simp
  with run show ?thesis by (rule conjI)
qed

text \<open>
  Claim C2 as stated (the encoded positives and negatives are disjoint) fails: the
  sample is drawn from \<open>list(kb_all)\<close>, which still holds the positives. With the
  universe 1, 2, 3, the positive 1 and no negatives, a draw of position 0 makes 1 a
  negative too.
\<close>

theorem encode_learning_problem_counterexample:
  "encode_learning_problem [0] \<lparr>class_hierarchy_size = 1, all_individuals = [1::nat, 2, 3]\<rparr>
       \<lparr>lp_pos = [1], lp_neg = [], lp_all = None\<rparr>
     = Inr \<lparr>kb_pos = {1}, kb_neg = {1}, kb_all = {1, 2, 3}, kb_diff = {2, 3}\<rparr>
   \<and> kb_pos \<lparr>kb_pos = {1::nat}, kb_neg = {1}, kb_all = {1, 2, 3}, kb_diff = {2, 3}\<rparr>
       \<inter> kb_neg \<lparr>kb_pos = {1::nat}, kb_neg = {1}, kb_all = {1, 2, 3}, kb_diff = {2, 3}\<rparr> \<noteq> {}"
  using encode_run_sampled [of 0] by auto

section \<open>Properties of the triple-store result unwrapping\<close>

text \<open>
  A row with one \<open>uri\<close> binding yields the entity of the expected class on its IRI, and
  a typed literal yields the literal with its datatype.
\<close>

lemma fetch_results_uri:
  "fetch_results (Entity_type cls) [''x''] [ [(''x'', [(''type'', ''uri''), (''value'', u)])] ]
     = ([Entity cls (IRI u)], None)"
  by (simp add: fetch_results_def getitem_def has_key_def List.map_filter_def)

lemma fetch_results_typed_literal:
  "fetch_results OWLLiteral_type [''x'']
       [ [(''x'', [(''type'', ''literal''), (''value'', v), (''datatype'', d)])] ]
     = ([Plain (OWLLiteral v d)], None)"
  by (simp add: fetch_results_def getitem_def has_key_def List.map_filter_def)

text \<open>
  Claim C8 (a skipped binding, or a row with more than one value, yields nothing, for
  every expected return type including \<open>OWLLiteral\<close>) fails on the code for
  \<open>OWLLiteral\<close>: \<open>unwrap\<close> yields \<open>None\<close> for such a row, and only the branch for the
  other return types filters \<open>None\<close> out. A blank node, an untyped literal and a row
  of two IRIs each yield the item \<open>None\<close> when \<open>OWLLiteral\<close> is expected, and nothing
  when a class of entities is expected.
\<close>

theorem fetch_results_OWLLiteral_yields_None:
  "fetch_results OWLLiteral_type [''x'']
       [ [(''x'', [(''type'', ''bnode''), (''value'', ''b0'')])],
        [(''x'', [(''type'', ''literal''), (''value'', ''Anna'')])] ]
     = ([PyNone, PyNone], None)
   \<and> fetch_results OWLLiteral_type [''x'', ''y'']
       [ [(''x'', [(''type'', ''uri''), (''value'', ''http://e.org/a'')]),
         (''y'', [(''type'', ''uri''), (''value'', ''http://e.org/b'')])] ]
     = ([PyNone], None)
   \<and> fetch_results (Entity_type ''OWLNamedIndividual'') [''x'']
       [ [(''x'', [(''type'', ''bnode''), (''value'', ''b0'')])],
        [(''x'', [(''type'', ''literal''), (''value'', ''Anna'')])] ]
     = ([], None)
   \<and> fetch_results (Entity_type ''OWLNamedIndividual'') [''x'', ''y'']
       [ [(''x'', [(''type'', ''uri''), (''value'', ''http://e.org/a'')]),
         (''y'', [(''type'', ''uri''), (''value'', ''http://e.org/b'')])] ]
     = ([], None)"
  by (simp add: fetch_results_def getitem_def has_key_def List.map_filter_def)

section \<open>Properties of the universal restriction in the caching wrapper\<close>

text \<open>
  Where the property and the filler are names (non-empty runs of word characters),
  the transformation gives the existential dual.
\<close>

lemma takeWhile_word_run:
  assumes "\<forall>x\<in>set xs. is_word x" and "\<not> is_word y"
  shows "takeWhile is_word (xs @ y # ys) = xs" and "dropWhile is_word (xs @ y # ys) = y # ys"
  using assms by (induction xs) auto

lemma takeWhile_word_all:
  assumes "\<forall>x\<in>set xs. is_word x"
  shows "takeWhile is_word xs = xs" and "dropWhile is_word xs = []"
  using assms by (induction xs) auto

lemma re_sub_skip: "re_sub m repl (length pre) (pre @ rest) = re_sub m repl 0 rest"
  by (induction pre) simp_all

lemma re_sub_skip_all: "re_sub m repl (length cs) cs = []"
  using re_sub_skip [of m repl cs "[]"] by simp

lemma match_negated_head: "Forall \<noteq> c \<Longrightarrow> match_negated (c # cs) = None"
  by (cases c) (simp_all add: match_negated_def)

lemma match_non_negated_head: "Forall \<noteq> c \<Longrightarrow> match_non_negated (c # cs) = None"
  by (cases c) (simp_all add: match_non_negated_def)

lemma re_sub_negated_no_Forall:
  "Forall \<notin> set s \<Longrightarrow> re_sub match_negated repl 0 s = s"
  by (induction s) (simp_all add: match_negated_head)

lemma re_sub_non_negated_no_Forall:
  "Forall \<notin> set s \<Longrightarrow> re_sub match_non_negated repl 0 s = s"
  by (induction s) (simp_all add: match_non_negated_head)

lemma word_no_Forall: "\<forall>x\<in>set xs. is_word x \<Longrightarrow> Forall \<notin> set xs"
  by auto

lemma transform_atomic_negated:
  assumes r: "r \<noteq> []" "\<forall>x\<in>set r. is_word x" and C: "C \<noteq> []" "\<forall>x\<in>set C. is_word x"
  shows "transform_forall_to_exists (Forall # Space # r @ Dot # LParen # Neg # C @ [RParen])
           = Exists # Space # r @ Dot # C"
proof -
  have m: "match_negated (Forall # Space # r @ Dot # LParen # Neg # C @ [RParen]) = Some (r, C, [])"
    using r C
    by (simp add: match_negated_def takeWhile_word_run [of r Dot] takeWhile_word_run [of C RParen])
  have "re_sub match_negated replacement_negated 0 (Forall # Space # r @ Dot # LParen # Neg # C @ [RParen])
          = Exists # Space # r @ Dot # C"
    using re_sub_skip_all [of match_negated replacement_negated "Space # r @ Dot # LParen # Neg # C @ [RParen]"]
    by (simp add: m replacement_negated_def)
  moreover have "Forall \<notin> set (Exists # Space # r @ Dot # C)"
    using word_no_Forall [OF r(2)] word_no_Forall [OF C(2)] by simp
  then have "re_sub match_non_negated replacement_non_negated 0 (Exists # Space # r @ Dot # C)
      = Exists # Space # r @ Dot # C"
    by (rule re_sub_non_negated_no_Forall)
  ultimately show ?thesis
    by (simp only: transform_forall_to_exists_def Let_def)
qed

lemma transform_atomic_plain:
  assumes r: "r \<noteq> []" "\<forall>x\<in>set r. is_word x" and C: "C \<noteq> []" "\<forall>x\<in>set C. is_word x"
  shows "transform_forall_to_exists (Forall # Space # r @ Dot # C)
           = Exists # Space # r @ Dot # LParen # Neg # C @ [RParen]"
proof -
  from C obtain c cs where Ccs: "C = c # cs" "is_word c" by (cases C) auto
  then obtain n where "c = Word n" by (cases c) auto
  with Ccs have m1: "match_negated (Forall # Space # r @ Dot # C) = None"
    using r by (simp add: match_negated_def takeWhile_word_run [of r Dot])
  have "Forall \<notin> set (Space # r @ Dot # C)"
    using word_no_Forall [OF r(2)] word_no_Forall [OF C(2)] by simp
  then have "re_sub match_negated replacement_negated 0 (Space # r @ Dot # C) = Space # r @ Dot # C"
    by (rule re_sub_negated_no_Forall)
  with m1 have p1: "re_sub match_negated replacement_negated 0 (Forall # Space # r @ Dot # C)
      = Forall # Space # r @ Dot # C"
    by simp
  have m2: "match_non_negated (Forall # Space # r @ Dot # C) = Some (r, C, [])"
    using r C by (simp add: match_non_negated_def takeWhile_word_run [of r Dot] takeWhile_word_all)
  have "re_sub match_non_negated replacement_non_negated 0 (Forall # Space # r @ Dot # C)
      = Exists # Space # r @ Dot # LParen # Neg # C @ [RParen]"
    using re_sub_skip_all [of match_non_negated replacement_non_negated "Space # r @ Dot # C"]
    by (simp add: m2 replacement_non_negated_def)
  with p1 show ?thesis
    by (simp only: transform_forall_to_exists_def Let_def)
qed

text \<open>
  The result of the wrapper is the individuals without the cached set when the
  transformed expression is a key of the cache, and the result of the wrapped function
  otherwise.
\<close>

lemma get_cache_value: "fst (get_cache now key c) = map_of (cache c) key"
  by (simp add: get_cache_def has_key_def)

lemma retrieve_from_cache_value:
  "fst (retrieve_from_cache now expression cs) = map_of (cache (fst cs)) expression"
  by (auto simp: retrieve_from_cache_def get_cache_def has_key_def split: option.splits)

lemma wrapper_all_values_result:
  assumes "wrapper_all_values rnd now_get now_put func All_individuals str_expression cs = Inr (result, cs')"
  shows "result = (case map_of (cache (fst cs)) (transform_forall_to_exists str_expression) of
                     Some cached_result \<Rightarrow> All_individuals - cached_result
                   | None \<Rightarrow> func str_expression)"
proof -
  obtain v c1 st1 where r: "retrieve_from_cache now_get (transform_forall_to_exists str_expression) cs = (v, c1, st1)"
    by (cases "retrieve_from_cache now_get (transform_forall_to_exists str_expression) cs") auto
  then have v: "v = map_of (cache (fst cs)) (transform_forall_to_exists str_expression)"
    using retrieve_from_cache_value [of now_get "transform_forall_to_exists str_expression" cs] by simp
  from assms r have "result = (case v of Some cached_result \<Rightarrow> All_individuals - cached_result
                   | None \<Rightarrow> func str_expression)"
    by (auto simp: wrapper_all_values_def Let_def split: sum.splits)
  with v show ?thesis by simp
qed

lemma transform_complex:
  "transform_forall_to_exists
       [Forall, Space, Word 114, Dot, LParen, Word 65, Space, Other 8851, Space, Word 66, RParen]
     = [Forall, Space, Word 114, Dot, LParen, Word 65, Space, Other 8851, Space, Word 66, RParen]"
  by (simp add: transform_forall_to_exists_def match_negated_def match_non_negated_def)

text \<open>
  Claim C7 (every universal restriction is rewritten to its existential dual before
  the lookup) fails on the code where the filler is not a name: the patterns need a
  word character, or an opening parenthesis and a negation sign, right after the dot,
  so the rendering of \<open>\<forall> r.(A \<sqinter> B)\<close> is left as it is and the lookup is made with the
  universal restriction itself. The first call, on an empty cache, returns what the
  wrapped function returns and stores it under that key; the second call finds it and
  returns its complement.
\<close>

theorem wrapper_all_values_complex_filler:
  "transform_forall_to_exists
       [Forall, Space, Word 114, Dot, LParen, Word 65, Space, Other 8851, Space, Word 66, RParen]
     = [Forall, Space, Word 114, Dot, LParen, Word 65, Space, Other 8851, Space, Word 66, RParen]
   \<and> (case wrapper_all_values rnd 1 2 (\<lambda>_. {1::nat}) {1, 2}
            [Forall, Space, Word 114, Dot, LParen, Word 65, Space, Other 8851, Space, Word 66, RParen]
            (init_cache 10 ''LIFO'' 0, \<lparr>hits = 0, misses = 0\<rparr>) of
         Inl e \<Rightarrow> None
       | Inr (result1, cs1) \<Rightarrow>
           Some (result1,
                 map_sum id fst
                   (wrapper_all_values rnd 3 4 (\<lambda>_. {1::nat}) {1, 2}
                      [Forall, Space, Word 114, Dot, LParen, Word 65, Space, Other 8851, Space, Word 66, RParen]
                      cs1)))
     = Some ({1}, Inr {2})"
  by (simp add: wrapper_all_values_def transform_complex retrieve_from_cache_def get_cache_def
      put_def evict_def init_cache_def has_key_def Let_def)

section \<open>Properties of SearchTreePriorityQueue.add\_node\<close>

text \<open>
  For a node that has not been scored and whose concept is not in the index, the call
  returns \<open>False\<close> and leaves index and queue as they were when the quality is zero;
  otherwise the node is in the index, in the queue and among the children of
  \<open>parent_node\<close>, and the result is \<open>True\<close> exactly when the quality is 1.
\<close>

lemma add_node_new_concept:
  assumes new: "nodes st (node_concept (store st node)) = None"
    and fresh: "node_quality (store st node) = None" "node_heuristic (store st node) = None"
  shows "qf (store st) node = 0 \<Longrightarrow>
           \<exists>st'. add_node qf hf node parent_node st = Inr (Some False, st')
                \<and> nodes st' = nodes st \<and> items_in_queue st' = items_in_queue st"
    and "qf (store st) node \<noteq> 0 \<Longrightarrow>
           \<exists>st'. add_node qf hf node parent_node st
                  = Inr (if qf (store st) node = 1 then Some True else None, st')
                \<and> nodes st' (node_concept (store st node)) = Some node
                \<and> node \<in> snd ` set (items_in_queue st')
                \<and> node \<in> children (store st' parent_node)"
proof -
  let ?h1 = "(store st)(node := (store st node)\<lparr>node_quality := Some (qf (store st) node)\<rparr>)"
  have q: "quality_func_apply qf node (store st) = Inr ?h1"
    using fresh by (simp add: quality_func_apply_def set_quality_def)
  {
    assume "qf (store st) node = 0"
    with new q show "\<exists>st'. add_node qf hf node parent_node st = Inr (Some False, st')
                \<and> nodes st' = nodes st \<and> items_in_queue st' = items_in_queue st"
      by (simp add: add_node_def)
  }
  {
    assume nz: "qf (store st) node \<noteq> 0"
    let ?h2 = "?h1(node := (?h1 node)\<lparr>node_heuristic := Some (hf ?h1 node)\<rparr>)"
    have h: "heuristic_func_apply hf node ?h1 = Inr ?h2"
      using fresh by (simp add: heuristic_func_apply_def set_heuristic_def)
    show "\<exists>st'. add_node qf hf node parent_node st
                  = Inr (if qf (store st) node = 1 then Some True else None, st')
                \<and> nodes st' (node_concept (store st node)) = Some node
                \<and> node \<in> snd ` set (items_in_queue st')
                \<and> node \<in> children (store st' parent_node)"
      using new nz
      by (simp add: add_node_def q h queue_put_def add_child_def Let_def)
  }
qed

text \<open>
  When the concept is in the index and the node's parent is not \<open>parent_node\<close>, the
  call raises in every case: the setter of \<open>heuristic\<close> refuses a second value for a
  node that has one, and for a node that has none the old heuristic is \<open>None\<close> and the
  comparison with the new one is a \<open>TypeError\<close>.
\<close>

lemma heuristic_func_apply_scored:
  "node_heuristic (h node) \<noteq> None \<Longrightarrow>
     heuristic_func_apply hf node h = Inl (ValueError ''Node heuristic already calculated'')"
  by (simp add: heuristic_func_apply_def set_heuristic_def)

lemma heuristic_func_apply_unscored:
  "node_heuristic (h node) = None \<Longrightarrow>
     heuristic_func_apply hf node h = Inr (h(node := (h node)\<lparr>node_heuristic := Some (hf h node)\<rparr>))"
  by (simp add: heuristic_func_apply_def set_heuristic_def)

lemma add_node_indexed_other_parent_raises:
  assumes "nodes st (node_concept (store st node)) \<noteq> None"
    and "parent_ref (store st node) \<noteq> Some parent_node"
  shows "add_node qf hf node parent_node st =
           (if node_heuristic (store st node) \<noteq> None
            then Inl (ValueError ''Node heuristic already calculated'')
            else Inl TypeError)"
proof (cases "node_heuristic (store st node)")
  case None
  with assms show ?thesis
    by (simp add: add_node_def heuristic_func_apply_unscored)
next
  case (Some a)
  with assms show ?thesis
    by (simp add: add_node_def heuristic_func_apply_scored)
qed

text \<open>
  Claim C5 (a node whose concept is indexed under another parent is re-parented when
  its recomputed heuristic is greater, and otherwise nothing changes and no error is
  raised) fails on the code. In a tree where the concept \<open>A\<close> is indexed under the
  parent 1, the indexed node 3 and a new node 4 of the same concept are added under
  the parent 2, with a heuristic function that gives more than the old heuristic: the
  first call raises \<open>ValueError\<close>, the second \<open>TypeError\<close>.
\<close>

theorem add_node_reparent_raises:
  "add_node (\<lambda>h n. 1/2) (\<lambda>h n. 3/4) 3 2
     \<lparr>store = (\<lambda>r. \<lparr>node_concept = ''T'', node_quality = Some (1/4), node_heuristic = Some (1/4),
                       parent_ref = None, children = {1, 2}\<rparr>)
                (1 := \<lparr>node_concept = ''P1'', node_quality = Some (1/2), node_heuristic = Some (1/2),
                       parent_ref = Some 0, children = {3}\<rparr>,
                 2 := \<lparr>node_concept = ''P2'', node_quality = Some (1/2), node_heuristic = Some (1/2),
                       parent_ref = Some 0, children = {}\<rparr>,
                 3 := \<lparr>node_concept = ''A'', node_quality = Some (1/2), node_heuristic = Some (1/2),
                       parent_ref = Some 1, children = {}\<rparr>,
                 4 := \<lparr>node_concept = ''A'', node_quality = None, node_heuristic = None,
                       parent_ref = Some 1, children = {}\<rparr>),
      nodes = [''T'' \<mapsto> 0, ''P1'' \<mapsto> 1, ''P2'' \<mapsto> 2, ''A'' \<mapsto> 3],
      items_in_queue = [(- (1/2), 3), (- (1/2), 2), (- (1/2), 1), (- (1/4), 0)]\<rparr>
     = Inl (ValueError ''Node heuristic already calculated'')
   \<and> add_node (\<lambda>h n. 1/2) (\<lambda>h n. 3/4) 4 2
     \<lparr>store = (\<lambda>r. \<lparr>node_concept = ''T'', node_quality = Some (1/4), node_heuristic = Some (1/4),
                       parent_ref = None, children = {1, 2}\<rparr>)
                (1 := \<lparr>node_concept = ''P1'', node_quality = Some (1/2), node_heuristic = Some (1/2),
                       parent_ref = Some 0, children = {3}\<rparr>,
                 2 := \<lparr>node_concept = ''P2'', node_quality = Some (1/2), node_heuristic = Some (1/2),
                       parent_ref = Some 0, children = {}\<rparr>,
                 3 := \<lparr>node_concept = ''A'', node_quality = Some (1/2), node_heuristic = Some (1/2),
                       parent_ref = Some 1, children = {}\<rparr>,
                 4 := \<lparr>node_concept = ''A'', node_quality = None, node_heuristic = None,
                       parent_ref = Some 1, children = {}\<rparr>),
      nodes = [''T'' \<mapsto> 0, ''P1'' \<mapsto> 1, ''P2'' \<mapsto> 2, ''A'' \<mapsto> 3],
      items_in_queue = [(- (1/2), 3), (- (1/2), 2), (- (1/2), 1), (- (1/4), 0)]\<rparr>
     = Inl TypeError"
  by (simp add: add_node_def heuristic_func_apply_def set_heuristic_def)

end
